theory Spec2Isabelle
  imports Main "HOL-Library.Word"
begin

unbundle bit_operations_syntax

section \<open>The USB control-transfer transport of \<open>usb_host_control.py\<close>\<close>

text \<open>
  The class \<open>CynthionUSBHost\<close> talks to the device only through
  \<open>self.device.ctrl_transfer\<close>, called by \<open>write_register\<close> and \<open>read_register\<close>.
  A transfer either returns or raises \<open>usb.core.USBError\<close>, which both methods catch.
  The model covers a controller whose \<open>connect()\<close> found the device. The device is an
  arbitrary environment: \<open>reply k\<close> is the outcome of the \<open>k\<close>-th control transfer made so
  far, \<open>None\<close> for \<open>USBError\<close> and \<open>Some b\<close> for a transfer that returned (for a read,
  \<open>b\<close> is \<open>data[0]\<close>). Since the script is deterministic, an outcome indexed by the
  number of transfers already made describes every behaviour of the device. \<open>xlog\<close> records
  the transfers the script has issued, in order.
\<close>

datatype xfer = WriteReg int int | ReadReg int

record usb_host =
  reply :: "nat \<Rightarrow> int option"
  xlog :: "xfer list"

definition REG_HOST_MODE_ENABLE :: int where "REG_HOST_MODE_ENABLE = 0x00"
definition REG_ENUM_START :: int where "REG_ENUM_START = 0x01"
definition REG_ENUM_DONE :: int where "REG_ENUM_DONE = 0x02"
definition REG_ENUM_ERROR :: int where "REG_ENUM_ERROR = 0x03"
definition REG_ENUM_ERROR_CODE :: int where "REG_ENUM_ERROR_CODE = 0x04"
definition REG_VENDOR_ID_LO :: int where "REG_VENDOR_ID_LO = 0x10"
definition REG_VENDOR_ID_HI :: int where "REG_VENDOR_ID_HI = 0x11"
definition REG_PRODUCT_ID_LO :: int where "REG_PRODUCT_ID_LO = 0x12"
definition REG_PRODUCT_ID_HI :: int where "REG_PRODUCT_ID_HI = 0x13"
definition REG_KBD_ACTIVE :: int where "REG_KBD_ACTIVE = 0x20"
definition REG_KBD_REPORT_BASE :: int where "REG_KBD_REPORT_BASE = 0x30"
definition REG_MOUSE_ACTIVE :: int where "REG_MOUSE_ACTIVE = 0x40"
definition REG_MOUSE_BUTTONS :: int where "REG_MOUSE_BUTTONS = 0x50"
definition REG_MOUSE_DELTA_X :: int where "REG_MOUSE_DELTA_X = 0x51"
definition REG_MOUSE_DELTA_Y :: int where "REG_MOUSE_DELTA_Y = 0x52"
definition REG_MOUSE_WHEEL :: int where "REG_MOUSE_WHEEL = 0x53"

text \<open>
  \<open>write_register\<close>: one control transfer; \<open>True\<close> when it returns, \<open>False\<close> when it
  raises \<open>USBError\<close>.
\<close>

definition write_register :: "usb_host \<Rightarrow> int \<Rightarrow> int \<Rightarrow> bool \<times> usb_host" where
  "write_register s reg_addr v =
     (reply s (length (xlog s)) \<noteq> None, s\<lparr>xlog := xlog s @ [WriteReg reg_addr v]\<rparr>)"

text \<open>
  \<open>read_register\<close>: one control transfer; \<open>data[0]\<close> when it returns, \<open>None\<close> when it
  raises \<open>USBError\<close>.
\<close>

definition read_register :: "usb_host \<Rightarrow> int \<Rightarrow> int option \<times> usb_host" where
  "read_register s reg_addr =
     (reply s (length (xlog s)), s\<lparr>xlog := xlog s @ [ReadReg reg_addr]\<rparr>)"

definition enable_host_mode :: "usb_host \<Rightarrow> bool \<times> usb_host" where
  "enable_host_mode s = write_register s REG_HOST_MODE_ENABLE 1"

definition disable_host_mode :: "usb_host \<Rightarrow> bool \<times> usb_host" where
  "disable_host_mode s = write_register s REG_HOST_MODE_ENABLE 0"

text \<open>
  \<open>start_enumeration\<close>: the early \<open>return False\<close> after a failed first write is the first
  branch; the \<open>time.sleep(0.01)\<close> between the writes has no effect on the transfers.
\<close>

definition start_enumeration :: "usb_host \<Rightarrow> bool \<times> usb_host" where
  "start_enumeration s =
     (let (ok, s1) = write_register s REG_ENUM_START 1
      in if \<not> ok then (False, s1)
         else write_register s1 REG_ENUM_START 0)"

section \<open>Enumeration status\<close>

record enum_status =
  done_status :: bool
  error :: bool
  error_code :: int
  vendor_id :: int
  product_id :: int
  keyboard_active :: bool
  mouse_active :: bool

text \<open>
  \<open>check_enumeration_status\<close>: the dictionary \<open>status\<close> starts from its defaults and each
  field is overwritten only when the read it depends on succeeded. The method is a sequence
  of six blocks, each under its own comment in the source; each block is one definition here,
  named after its comment, taking the dictionary and the device and returning both. The
  field \<open>'done'\<close> is \<open>done_status\<close> here.
\<close>

definition read_done_flag :: "enum_status \<Rightarrow> usb_host \<Rightarrow> enum_status \<times> usb_host" where
  "read_done_flag status s =
     (let (done, s') = read_register s REG_ENUM_DONE
      in (case done of None \<Rightarrow> status | Some d \<Rightarrow> status\<lparr>done_status := (d \<noteq> 0)\<rparr>, s'))"

definition read_error_flag :: "enum_status \<Rightarrow> usb_host \<Rightarrow> enum_status \<times> usb_host" where
  "read_error_flag status s =
     (let (err, s') = read_register s REG_ENUM_ERROR
      in (case err of None \<Rightarrow> status | Some e \<Rightarrow> status\<lparr>error := (e \<noteq> 0)\<rparr>, s'))"

definition read_error_code :: "enum_status \<Rightarrow> usb_host \<Rightarrow> enum_status \<times> usb_host" where
  "read_error_code status s =
     (let (ecode, s') = read_register s REG_ENUM_ERROR_CODE
      in (case ecode of None \<Rightarrow> status | Some c \<Rightarrow> status\<lparr>error_code := c\<rparr>, s'))"

text \<open>
  The block \<open>if status['done'] and not status['error']\<close>: the four identity registers are
  read only under that condition, and the ids are assembled only when
  \<open>all(x is not None for x in [vid_lo, vid_hi, pid_lo, pid_hi])\<close>.
\<close>

definition read_vid_pid :: "enum_status \<Rightarrow> usb_host \<Rightarrow> enum_status \<times> usb_host" where
  "read_vid_pid status s =
     (if done_status status \<and> \<not> error status then
        (let (vid_lo, s4) = read_register s REG_VENDOR_ID_LO;
             (vid_hi, s5) = read_register s4 REG_VENDOR_ID_HI;
             (pid_lo, s6) = read_register s5 REG_PRODUCT_ID_LO;
             (pid_hi, s7) = read_register s6 REG_PRODUCT_ID_HI
         in (case (vid_lo, vid_hi, pid_lo, pid_hi) of
               (Some vl, Some vh, Some pl, Some ph) \<Rightarrow>
                 (status\<lparr>vendor_id := push_bit 8 vh OR vl,
                          product_id := push_bit 8 ph OR pl\<rparr>, s7)
             | _ \<Rightarrow> (status, s7)))
      else (status, s))"

definition read_keyboard_active :: "enum_status \<Rightarrow> usb_host \<Rightarrow> enum_status \<times> usb_host" where
  "read_keyboard_active status s =
     (let (kbd_active, s') = read_register s REG_KBD_ACTIVE
      in (case kbd_active of None \<Rightarrow> status
          | Some k \<Rightarrow> status\<lparr>keyboard_active := (k \<noteq> 0)\<rparr>, s'))"

definition read_mouse_active :: "enum_status \<Rightarrow> usb_host \<Rightarrow> enum_status \<times> usb_host" where
  "read_mouse_active status s =
     (let (mouse_act, s') = read_register s REG_MOUSE_ACTIVE
      in (case mouse_act of None \<Rightarrow> status
          | Some m \<Rightarrow> status\<lparr>mouse_active := (m \<noteq> 0)\<rparr>, s'))"

definition check_enumeration_status :: "usb_host \<Rightarrow> enum_status \<times> usb_host" where
  "check_enumeration_status s0 =
     (let status = \<lparr>done_status = False, error = False, error_code = 0, vendor_id = 0,
                     product_id = 0, keyboard_active = False, mouse_active = False\<rparr>;
          (status, s1) = read_done_flag status s0;
          (status, s2) = read_error_flag status s1;
          (status, s3) = read_error_code status s2;
          (status, s7) = read_vid_pid status s3;
          (status, s8) = read_keyboard_active status s7;
          (status, s9) = read_mouse_active status s8
      in (status, s9))"

text \<open>
  \<open>print_status\<close> calls \<open>check_enumeration_status\<close> once and prints; printing is not
  part of the model, so its effect on the device is that of the status check.
\<close>

definition print_status :: "usb_host \<Rightarrow> usb_host" where
  "print_status s = snd (check_enumeration_status s)"

section \<open>Live reports\<close>

type_synonym byte = "8 word"

datatype py_error = ValueError

text \<open>
  \<open>bytes(report)\<close> on a list of integers raises \<open>ValueError\<close> unless every element is in
  \<open>range(256)\<close>.
\<close>

definition bytes_py :: "int list \<Rightarrow> py_error + byte list" where
  "bytes_py xs =
     (if list_all (\<lambda>v. 0 \<le> v \<and> v < 256) xs then Inr (map word_of_int xs)
      else Inl ValueError)"

text \<open>
  The loop \<open>for i in range(8)\<close> of \<open>read_keyboard_report\<close>, with its early
  \<open>return None\<close> at the first failed read.
\<close>

fun read_keyboard_loop :: "nat list \<Rightarrow> int list \<Rightarrow> usb_host \<Rightarrow> int list option \<times> usb_host" where
  "read_keyboard_loop [] report s = (Some report, s)"
| "read_keyboard_loop (i # rest) report s =
     (case read_register s (REG_KBD_REPORT_BASE + int i) of
        (None, s') \<Rightarrow> (None, s')
      | (Some v, s') \<Rightarrow> read_keyboard_loop rest (report @ [v]) s')"

definition read_keyboard_report :: "usb_host \<Rightarrow> (py_error + byte list option) \<times> usb_host" where
  "read_keyboard_report s =
     (case read_keyboard_loop [0..<8] [] s of
        (None, s') \<Rightarrow> (Inr None, s')
      | (Some report, s') \<Rightarrow>
          (case bytes_py report of
             Inl e \<Rightarrow> (Inl e, s')
           | Inr b \<Rightarrow> (Inr (Some b), s')))"

record mouse_report =
  buttons :: int
  delta_x :: int
  delta_y :: int
  wheel :: int
  left_button :: bool
  right_button :: bool
  middle_button :: bool

text \<open>
  \<open>read_mouse_report\<close>: all four registers are read before the \<open>None\<close> check; the three
  raw deltas are converted with \<open>raw if raw < 128 else raw - 256\<close>; \<open>bool(buttons & m)\<close>
  is \<open>buttons AND m \<noteq> 0\<close>.
\<close>

definition read_mouse_report :: "usb_host \<Rightarrow> mouse_report option \<times> usb_host" where
  "read_mouse_report s0 =
     (let (btns, s1) = read_register s0 REG_MOUSE_BUTTONS;
          (delta_x_raw, s2) = read_register s1 REG_MOUSE_DELTA_X;
          (delta_y_raw, s3) = read_register s2 REG_MOUSE_DELTA_Y;
          (wheel_raw, s4) = read_register s3 REG_MOUSE_WHEEL
      in (case (btns, delta_x_raw, delta_y_raw, wheel_raw) of
            (Some b, Some xr, Some yr, Some wr) \<Rightarrow>
              (Some \<lparr>buttons = b,
                     delta_x = (if xr < 128 then xr else xr - 256),
                     delta_y = (if yr < 128 then yr else yr - 256),
                     wheel = (if wr < 128 then wr else wr - 256),
                     left_button = (b AND 0x01 \<noteq> 0),
                     right_button = (b AND 0x02 \<noteq> 0),
                     middle_button = (b AND 0x04 \<noteq> 0)\<rparr>, s4)
          | _ \<Rightarrow> (None, s4)))"

section \<open>Formatting integers and bytes\<close>

definition hexdigit :: "nat \<Rightarrow> char" where
  "hexdigit d = ''0123456789abcdef'' ! d"

function hex_digits :: "nat \<Rightarrow> string" where
  "hex_digits n = (if n < 16 then [hexdigit n] else hex_digits (n div 16) @ [hexdigit (n mod 16)])"
  by pat_completeness auto
termination
  by (relation "measure id") auto

declare hex_digits.simps [simp del]

text \<open>
  Python's format specification \<open>02x\<close> on an integer: lowercase hexadecimal, a minus sign
  for a negative value, and zeros after the sign up to a total width of 2. A negative value
  already has width 2 with its sign, so it is never padded.
\<close>

definition fmt_02x :: "int \<Rightarrow> string" where
  "fmt_02x v =
     (if v < 0 then CHR ''-'' # hex_digits (nat (- v))
      else (let ds = hex_digits (nat v) in replicate (2 - length ds) CHR ''0'' @ ds))"

function dec_digits :: "nat \<Rightarrow> string" where
  "dec_digits n = (if n < 10 then [hexdigit n] else dec_digits (n div 10) @ [hexdigit (n mod 10)])"
  by pat_completeness auto
termination
  by (relation "measure id") auto

declare dec_digits.simps [simp del]

text \<open>\<open>str\<close> on an integer, as the f-string fields \<open>{device_addr}\<close> and \<open>{interface}\<close> use it.\<close>

definition str_int :: "int \<Rightarrow> string" where
  "str_int v = (if v < 0 then CHR ''-'' # dec_digits (nat (- v)) else dec_digits (nat v))"

text \<open>\<open>bytes.hex()\<close>: two lowercase hexadecimal digits for each byte, nothing between them.\<close>

definition bytes_hex :: "byte list \<Rightarrow> string" where
  "bytes_hex bs = concat (map (\<lambda>b. [hexdigit (unat b div 16), hexdigit (unat b mod 16)]) bs)"

text \<open>\<open>sep.join(parts)\<close>.\<close>

fun join :: "string \<Rightarrow> string list \<Rightarrow> string" where
  "join sep [] = []"
| "join sep [x] = x"
| "join sep (x # y # rest) = x @ sep @ join sep (y # rest)"

section \<open>Decoding a keyboard report\<close>

text \<open>
  The two dictionaries local to \<open>decode_keyboard_report\<close>, as association lists in the
  order of the dictionary literals (the order \<open>.items()\<close> iterates in).
\<close>

definition modifier_names :: "(int \<times> string) list" where
  "modifier_names =
     [(0x01, ''LEFT_CTRL''), (0x02, ''LEFT_SHIFT''), (0x04, ''LEFT_ALT''), (0x08, ''LEFT_GUI''),
      (0x10, ''RIGHT_CTRL''), (0x20, ''RIGHT_SHIFT''), (0x40, ''RIGHT_ALT''),
      (0x80, ''RIGHT_GUI'')]"

definition keycode_names :: "(int \<times> string) list" where
  "keycode_names =
     [(0x04, ''A''), (0x05, ''B''), (0x06, ''C''), (0x07, ''D''), (0x08, ''E''), (0x09, ''F''),
      (0x0A, ''G''), (0x0B, ''H''), (0x0C, ''I''), (0x0D, ''J''), (0x0E, ''K''), (0x0F, ''L''),
      (0x10, ''M''), (0x11, ''N''), (0x12, ''O''), (0x13, ''P''), (0x14, ''Q''), (0x15, ''R''),
      (0x16, ''S''), (0x17, ''T''), (0x18, ''U''), (0x19, ''V''), (0x1A, ''W''), (0x1B, ''X''),
      (0x1C, ''Y''), (0x1D, ''Z''),
      (0x1E, ''1''), (0x1F, ''2''), (0x20, ''3''), (0x21, ''4''), (0x22, ''5''),
      (0x23, ''6''), (0x24, ''7''), (0x25, ''8''), (0x26, ''9''), (0x27, ''0''),
      (0x28, ''ENTER''), (0x29, ''ESC''), (0x2A, ''BACKSPACE''), (0x2B, ''TAB''),
      (0x2C, ''SPACE''), (0x39, ''CAPS_LOCK'')]"

text \<open>
  \<open>for bit, name in modifier_names.items(): if report[0] & bit: modifiers.append(name)\<close>,
  with \<open>b0\<close> the integer \<open>report[0]\<close> and \<open>bitv\<close> the loop variable \<open>bit\<close>.
\<close>

fun modifiers_loop :: "(int \<times> string) list \<Rightarrow> int \<Rightarrow> string list \<Rightarrow> string list" where
  "modifiers_loop [] b0 modifiers = modifiers"
| "modifiers_loop ((bitv, name) # rest) b0 modifiers =
     modifiers_loop rest b0 (if b0 AND bitv \<noteq> 0 then modifiers @ [name] else modifiers)"

text \<open>\<open>keycode_names.get(code, f"KEY_{code:02x}")\<close>.\<close>

definition key_name :: "int \<Rightarrow> string" where
  "key_name code =
     (case map_of keycode_names code of Some name \<Rightarrow> name | None \<Rightarrow> ''KEY_'' @ fmt_02x code)"

text \<open>
  \<open>for i in range(2, 8): if report[i] != 0: keys.append(...)\<close>. Indexing \<open>bytes\<close> gives
  the integer value of the byte, \<open>uint\<close> here. The loop runs only on a report of length 8,
  so every index is in range.
\<close>

fun keys_loop :: "nat list \<Rightarrow> byte list \<Rightarrow> string list \<Rightarrow> string list" where
  "keys_loop [] report keys = keys"
| "keys_loop (i # rest) report keys =
     keys_loop rest report
       (if uint (report ! i) \<noteq> 0 then keys @ [key_name (uint (report ! i))] else keys)"

record keyboard_decoded =
  modifiers :: "string list"
  keys :: "string list"
  raw :: string

text \<open>
  \<open>decode_keyboard_report\<close> returns either the empty dictionary \<open>{}\<close>, which is \<open>None\<close>
  here, or a dictionary with exactly the keys \<open>'modifiers'\<close>, \<open>'keys'\<close> and \<open>'raw'\<close>.
  The argument is a \<open>bytes\<close> object, immutable in Python.
\<close>

definition decode_keyboard_report :: "byte list \<Rightarrow> keyboard_decoded option" where
  "decode_keyboard_report report =
     (if length report \<noteq> 8 then None
      else Some \<lparr>modifiers = modifiers_loop modifier_names (uint (report ! 0)) [],
                 keys = keys_loop [2..<8] report [],
                 raw = bytes_hex report\<rparr>)"

section \<open>Monitoring and the command line\<close>

text \<open>
  \<open>monitor_keyboard\<close> and \<open>monitor_mouse\<close> poll until the duration has passed or the user
  interrupts; the number of polls is therefore a parameter. Each poll reads one report;
  decoding and printing do not touch the device. A \<open>ValueError\<close> from
  \<open>read_keyboard_report\<close> is not caught by the loop and ends it.
\<close>

fun monitor_keyboard :: "nat \<Rightarrow> usb_host \<Rightarrow> py_error option \<times> usb_host" where
  "monitor_keyboard 0 s = (None, s)"
| "monitor_keyboard (Suc polls) s =
     (case read_keyboard_report s of
        (Inl e, s') \<Rightarrow> (Some e, s')
      | (Inr _, s') \<Rightarrow> monitor_keyboard polls s')"

fun monitor_mouse :: "nat \<Rightarrow> usb_host \<Rightarrow> usb_host" where
  "monitor_mouse 0 s = s"
| "monitor_mouse (Suc polls) s = monitor_mouse polls (snd (read_mouse_report s))"

text \<open>
  The wait loop of \<open>main\<close> under \<open>--enumerate\<close>: at most 50 status checks, left at the first
  one that reports done or error.
\<close>

fun enumerate_wait :: "nat \<Rightarrow> usb_host \<Rightarrow> usb_host" where
  "enumerate_wait 0 s = s"
| "enumerate_wait (Suc k) s =
     (let (status, s') = check_enumeration_status s
      in if done_status status then s'
         else if error status then s'
         else enumerate_wait k s')"

record args =
  enable :: bool
  disable :: bool
  enumerate :: bool
  status :: bool
  monitor :: bool

text \<open>
  \<open>main\<close>, from the parsed arguments on: with no action it exits before it creates the
  controller; otherwise it runs the requested actions in the fixed order of the script.
\<close>

definition main :: "args \<Rightarrow> nat \<Rightarrow> usb_host \<Rightarrow> py_error option \<times> usb_host" where
  "main a polls s0 =
     (if \<not> (enable a \<or> disable a \<or> enumerate a \<or> status a \<or> monitor a) then (None, s0)
      else
        (let s1 = (if enable a then snd (enable_host_mode s0) else s0);
             s2 = (if disable a then snd (disable_host_mode s1) else s1);
             s3 = (if enumerate a then enumerate_wait 50 (snd (start_enumeration s2)) else s2);
             s4 = (if status a then print_status s3 else s3)
         in if monitor a then
              (let (st, s5) = check_enumeration_status s4
               in if keyboard_active st then monitor_keyboard polls s5
                  else if mouse_active st then (None, monitor_mouse polls s5)
                  else (None, s5))
            else (None, s4)))"

text \<open>
  Every way the script reaches the registers of the device: the public methods of the class
  and \<open>main\<close>. The constructor and \<open>connect\<close> call neither \<open>write_register\<close> nor
  \<open>read_register\<close>.
\<close>

datatype call =
    EnableHostMode
  | DisableHostMode
  | StartEnumeration
  | CheckEnumerationStatus
  | ReadKeyboardReport
  | ReadMouseReport
  | PrintStatus
  | MonitorKeyboard nat
  | MonitorMouse nat
  | Main args nat

fun invoke :: "call \<Rightarrow> usb_host \<Rightarrow> usb_host" where
  "invoke EnableHostMode s = snd (enable_host_mode s)"
| "invoke DisableHostMode s = snd (disable_host_mode s)"
| "invoke StartEnumeration s = snd (start_enumeration s)"
| "invoke CheckEnumerationStatus s = snd (check_enumeration_status s)"
| "invoke ReadKeyboardReport s = snd (read_keyboard_report s)"
| "invoke ReadMouseReport s = snd (read_mouse_report s)"
| "invoke PrintStatus s = print_status s"
| "invoke (MonitorKeyboard polls) s = snd (monitor_keyboard polls s)"
| "invoke (MonitorMouse polls) s = monitor_mouse polls s"
| "invoke (Main a polls) s = snd (main a polls s)"

fun invoke_all :: "call list \<Rightarrow> usb_host \<Rightarrow> usb_host" where
  "invoke_all [] s = s"
| "invoke_all (c # cs) s = invoke_all cs (invoke c s)"

text \<open>The register addresses that the write transfers of a log name.\<close>

fun written_addrs :: "xfer list \<Rightarrow> int set" where
  "written_addrs [] = {}"
| "written_addrs (WriteReg a v # xs) = insert a (written_addrs xs)"
| "written_addrs (ReadReg a # xs) = written_addrs xs"

text \<open>
  \<open>control_writes_only s s'\<close>: the log of \<open>s'\<close> extends the log of \<open>s\<close>, and every write
  among the added transfers names the host-mode-enable or the enum-start register.
\<close>

definition control_writes_only :: "usb_host \<Rightarrow> usb_host \<Rightarrow> bool" where
  "control_writes_only s s' =
     (take (length (xlog s)) (xlog s') = xlog s \<and>
      written_addrs (drop (length (xlog s)) (xlog s')) \<subseteq> {REG_HOST_MODE_ENABLE, REG_ENUM_START})"

section \<open>Constants of the injection and descriptor test scripts\<close>

text \<open>
  \<open>SCANCODES\<close> of \<open>test_injection.py\<close>, in the order of the dictionary literal; the keys
  are one-character strings, the last two being newline and tab.
\<close>

definition SCANCODES :: "(string \<times> int) list" where
  "SCANCODES =
     [(''A'', 0x04), (''B'', 0x05), (''C'', 0x06), (''D'', 0x07), (''E'', 0x08), (''F'', 0x09),
      (''G'', 0x0A), (''H'', 0x0B), (''I'', 0x0C), (''J'', 0x0D), (''K'', 0x0E), (''L'', 0x0F),
      (''M'', 0x10), (''N'', 0x11), (''O'', 0x12), (''P'', 0x13), (''Q'', 0x14), (''R'', 0x15),
      (''S'', 0x16), (''T'', 0x17), (''U'', 0x18), (''V'', 0x19), (''W'', 0x1A), (''X'', 0x1B),
      (''Y'', 0x1C), (''Z'', 0x1D),
      (''1'', 0x1E), (''2'', 0x1F), (''3'', 0x20), (''4'', 0x21), (''5'', 0x22),
      (''6'', 0x23), (''7'', 0x24), (''8'', 0x25), (''9'', 0x26), (''0'', 0x27),
      ('' '', 0x2C), ([CHR 0x0A], 0x28), ([CHR 0x09], 0x2B)]"

text \<open>The string \<open>'ABCDEFGHIJKLMNOPQRSTUVWXYZ'\<close> that \<open>test_letter_scancodes\<close> enumerates.\<close>

definition letters :: string where
  "letters = ''ABCDEFGHIJKLMNOPQRSTUVWXYZ''"

text \<open>The modifier constants of \<open>TestModifierKeys.setUp\<close> and the list its tests build.\<close>

definition MOD_LSHIFT :: int where "MOD_LSHIFT = 0x02"
definition MOD_LCTRL :: int where "MOD_LCTRL = 0x01"
definition MOD_LALT :: int where "MOD_LALT = 0x04"
definition MOD_LGUI :: int where "MOD_LGUI = 0x08"
definition MOD_RSHIFT :: int where "MOD_RSHIFT = 0x20"
definition MOD_RCTRL :: int where "MOD_RCTRL = 0x10"
definition MOD_RALT :: int where "MOD_RALT = 0x40"
definition MOD_RGUI :: int where "MOD_RGUI = 0x80"

definition modifier_list :: "int list" where
  "modifier_list =
     [MOD_LCTRL, MOD_LSHIFT, MOD_LALT, MOD_LGUI, MOD_RCTRL, MOD_RSHIFT, MOD_RALT, MOD_RGUI]"


subsection \<open>The recoil pattern engine\<close>

text \<open>
  The recoil engine that handles \<open>recoil.add\<close> runs on the device and is not part of the
  host scripts; \<open>recoil_add\<close> of \<open>test_injection.py\<close> only builds the command line and
  checks no length. The definitions of this subsection follow the specification.
\<close>






text \<open>
  The two strings \<open>add_descriptor\<close> of \<open>test_descriptor.py\<close> builds: \<open>hex_str\<close> and the
  command line \<open>cmd\<close> it hands to \<open>send_command\<close>.
\<close>

definition hex_str :: "int list \<Rightarrow> string" where
  "hex_str descriptor_bytes = join '','' (map fmt_02x descriptor_bytes)"

definition add_descriptor_cmd :: "int \<Rightarrow> int \<Rightarrow> int list \<Rightarrow> string" where
  "add_descriptor_cmd device_addr interface descriptor_bytes =
     ''nozen.descriptor.add('' @ str_int device_addr @ '','' @ str_int interface @ ''){''
       @ hex_str descriptor_bytes @ ''}''"

section \<open>Concrete devices and inputs\<close>

text \<open>
  A device whose enum-done register reads 1, whose enum-error read fails, and whose
  identity registers hold 1d50:615b.
\<close>

definition dev_error_read_fails :: usb_host where
  "dev_error_read_fails =
     \<lparr>reply = (\<lambda>k. [Some 1, None, Some 0, Some 0x50, Some 0x1d, Some 0x5b, Some 0x61,
                       Some 0, Some 0] ! k),
      xlog = []\<rparr>"

text \<open>A device that enumerated 1d50:615b with every read succeeding.\<close>

definition dev_enumerated :: usb_host where
  "dev_enumerated =
     \<lparr>reply = (\<lambda>k. [Some 1, Some 0, Some 0, Some 0x50, Some 0x1d, Some 0x5b, Some 0x61,
                       Some 1, Some 0] ! k),
      xlog = []\<rparr>"

text \<open>A device on which every transfer succeeds and every register reads 0.\<close>

definition dev_idle :: usb_host where
  "dev_idle = \<lparr>reply = (\<lambda>k. Some 0), xlog = []\<rparr>"

text \<open>A device whose mouse registers read buttons 5, delta-x 246, delta-y 10, wheel 255.\<close>

definition dev_mouse :: usb_host where
  "dev_mouse = \<lparr>reply = (\<lambda>k. [Some 5, Some 246, Some 10, Some 255] ! k), xlog = []\<rparr>"

text \<open>The command line \<open>--enable --enumerate --status --monitor\<close>.\<close>

definition all_actions :: args where
  "all_actions =
     \<lparr>enable = True, disable = False, enumerate = True, status = True, monitor = True\<rparr>"

text \<open>Ctrl+Shift with the keys A and an unnamed code in slots 2 and 4.\<close>

definition report_ctrl_shift_a :: "byte list" where
  "report_ctrl_shift_a = [0x03, 0x00, 0x04, 0x00, 0x65, 0x00, 0x00, 0x00]"

section \<open>The enum-start pulse\<close>

text \<open>
  C7: \<open>start_enumeration\<close> writes 1 and then 0 to register 0x01, in that order. When the
  first write fails it returns \<open>False\<close> and the only transfer it has issued is the write of
  1; otherwise it issues both writes and returns the outcome of the second, so it returns
  \<open>True\<close> exactly when both writes succeed.
\<close>

theorem start_enumeration_pulse:
  "(reply s (length (xlog s)) = None \<longrightarrow>
      start_enumeration s = (False, s\<lparr>xlog := xlog s @ [WriteReg 0x01 1]\<rparr>)) \<and>
   (reply s (length (xlog s)) \<noteq> None \<longrightarrow>
      start_enumeration s =
        (reply s (Suc (length (xlog s))) \<noteq> None,
         s\<lparr>xlog := xlog s @ [WriteReg 0x01 1, WriteReg 0x01 0]\<rparr>)) \<and>
   (fst (start_enumeration s) \<longleftrightarrow>
      reply s (length (xlog s)) \<noteq> None \<and> reply s (Suc (length (xlog s))) \<noteq> None)"
  by (simp add: start_enumeration_def write_register_def REG_ENUM_START_def)

theorem start_enumeration_pulse_witness:
  "start_enumeration dev_idle
     = (True, dev_idle\<lparr>xlog := [WriteReg 0x01 1, WriteReg 0x01 0]\<rparr>) \<and>
   start_enumeration (dev_idle\<lparr>reply := (\<lambda>k. None)\<rparr>)
     = (False, dev_idle\<lparr>reply := (\<lambda>k. None), xlog := [WriteReg 0x01 1]\<rparr>)"
  using start_enumeration_pulse [of dev_idle]
    start_enumeration_pulse [of "dev_idle\<lparr>reply := (\<lambda>k. None)\<rparr>"]
  by (simp add: dev_idle_def)

section \<open>Reports of the wrong length\<close>

text \<open>
  C10: on a byte sequence whose length is not exactly 8, \<open>decode_keyboard_report\<close> returns
  the empty dictionary: no \<open>'modifiers'\<close>, \<open>'keys'\<close> or \<open>'raw'\<close> field, no exception and
  no partial decoding.
\<close>

theorem decode_wrong_length_empty:
  "length report \<noteq> 8 \<Longrightarrow> decode_keyboard_report report = None"
  by (simp add: decode_keyboard_report_def)

theorem decode_wrong_length_empty_witness:
  "decode_keyboard_report [0x03, 0x00, 0x04] = None \<and> decode_keyboard_report [] = None
   \<and> decode_keyboard_report (report_ctrl_shift_a @ [0]) = None"
  using decode_wrong_length_empty [of "[0x03, 0x00, 0x04]"] decode_wrong_length_empty [of "[]"]
    decode_wrong_length_empty [of "report_ctrl_shift_a @ [0]"]
  by (simp add: report_ctrl_shift_a_def)

section \<open>The cap on recoil patterns\<close>









section \<open>Modifier bits\<close>

lemma modifier_list_eq: "modifier_list = [1, 2, 4, 8, 16, 32, 64, 128]"
  by (simp add: modifier_list_def MOD_LSHIFT_def MOD_LCTRL_def MOD_LALT_def MOD_LGUI_def
      MOD_RSHIFT_def MOD_RCTRL_def MOD_RALT_def MOD_RGUI_def)

lemma modifier_names_keys: "map fst modifier_names = modifier_list"
  by (simp add: modifier_names_def modifier_list_eq)

lemma less_8_cases:
  "k < 8 \<Longrightarrow> k = 0 \<or> k = 1 \<or> k = 2 \<or> k = 3 \<or> k = 4 \<or> k = 5 \<or> k = 6 \<or> k = (7::nat)"
  by arith

lemma nth_modifier_list:
  assumes "k < 8"
  shows "modifier_list ! k = 2 ^ k"
  using less_8_cases [OF assms] by (elim disjE) (simp_all add: modifier_list_eq)

lemma pow2_and_int: "i \<noteq> j \<Longrightarrow> (2::int) ^ i AND 2 ^ j = 0"
  by (rule bit_eqI) (auto simp add: bit_and_iff bit_exp_iff)

lemma pow2_one_bit: "\<exists>!n. bit ((2::int) ^ k) n"
  by (auto simp add: bit_exp_iff)

text \<open>
  C5: the eight modifier values are bit0 Left-Ctrl 0x01, bit1 Left-Shift 0x02, bit2 Left-Alt
  0x04, bit3 Left-GUI 0x08, bit4 Right-Ctrl 0x10, bit5 Right-Shift 0x20, bit6 Right-Alt 0x40,
  bit7 Right-GUI 0x80, both as the keys of \<open>modifier_names\<close> in the decoder and as the
  constants of \<open>TestModifierKeys\<close>. The \<open>k\<close>-th value is \<open>2 ^ k\<close>, any two distinct ones have
  bitwise AND 0, and each has exactly one bit set.
\<close>

theorem modifier_bits:
  "map_of modifier_names 0x01 = Some ''LEFT_CTRL'' \<and>
   map_of modifier_names 0x02 = Some ''LEFT_SHIFT'' \<and>
   map_of modifier_names 0x04 = Some ''LEFT_ALT'' \<and>
   map_of modifier_names 0x08 = Some ''LEFT_GUI'' \<and>
   map_of modifier_names 0x10 = Some ''RIGHT_CTRL'' \<and>
   map_of modifier_names 0x20 = Some ''RIGHT_SHIFT'' \<and>
   map_of modifier_names 0x40 = Some ''RIGHT_ALT'' \<and>
   map_of modifier_names 0x80 = Some ''RIGHT_GUI'' \<and>
   map fst modifier_names = modifier_list \<and>
   length modifier_list = 8 \<and>
   (\<forall>k<8. modifier_list ! k = 2 ^ k) \<and>
   (\<forall>i<8. \<forall>j<8. i \<noteq> j \<longrightarrow> modifier_list ! i AND modifier_list ! j = 0) \<and>
   (\<forall>m\<in>set modifier_list. \<exists>!n. bit m n)"
proof -
  have names: "map_of modifier_names 0x01 = Some ''LEFT_CTRL''"
    "map_of modifier_names 0x02 = Some ''LEFT_SHIFT''"
    "map_of modifier_names 0x04 = Some ''LEFT_ALT''"
    "map_of modifier_names 0x08 = Some ''LEFT_GUI''"
    "map_of modifier_names 0x10 = Some ''RIGHT_CTRL''"
    "map_of modifier_names 0x20 = Some ''RIGHT_SHIFT''"
    "map_of modifier_names 0x40 = Some ''RIGHT_ALT''"
    "map_of modifier_names 0x80 = Some ''RIGHT_GUI''"
    by (simp_all add: modifier_names_def)
  have len: "length modifier_list = 8"
    by (simp add: modifier_list_eq)
  have pw: "\<forall>k<8. modifier_list ! k = 2 ^ k"
    by (simp add: nth_modifier_list)
  have disj: "\<forall>i<8. \<forall>j<8. i \<noteq> j \<longrightarrow> modifier_list ! i AND modifier_list ! j = 0"
    by (simp add: nth_modifier_list pow2_and_int)
  have one: "\<forall>m\<in>set modifier_list. \<exists>!n. bit m n"
  proof
    fix m assume "m \<in> set modifier_list"
    then obtain k where "k < length modifier_list" "m = modifier_list ! k"
      by (auto simp add: in_set_conv_nth)
    then have "m = 2 ^ k" using nth_modifier_list len by simp
    then show "\<exists>!n. bit m n" using pow2_one_bit by simp
  qed
  from names modifier_names_keys len pw disj one show ?thesis
    by blast
qed

theorem modifier_bits_witness:
  "modifier_list ! 0 AND modifier_list ! 5 = 0 \<and> modifier_list ! 0 = 1 \<and> modifier_list ! 5 = 0x20
   \<and> (\<exists>!n. bit (0x20 :: int) n)"
proof -
  have a: "(0x20::int) \<in> set modifier_list" by (simp add: modifier_list_eq)
  have b: "(0::nat) < 8" "(5::nat) < 8" "(0::nat) \<noteq> 5" by simp_all
  from modifier_bits a b have "modifier_list ! 0 AND modifier_list ! 5 = 0"
    "modifier_list ! 0 = 2 ^ 0" "modifier_list ! 5 = 2 ^ 5" "\<exists>!n. bit (0x20 :: int) n"
    by blast+
  then show ?thesis by simp
qed

section \<open>Letter scancodes\<close>

lemma scancode_letters_all:
  "list_all (\<lambda>i. map_of SCANCODES [letters ! i] = Some (0x04 + int i)) [0..<26]"
  by code_simp

lemma keycode_letters_all:
  "list_all (\<lambda>i. map_of keycode_names (0x04 + int i) = Some [letters ! i]) [0..<26]"
  by code_simp

lemma scancode_letters: "\<forall>i<26. map_of SCANCODES [letters ! i] = Some (0x04 + int i)"
  using scancode_letters_all unfolding list_all_iff by auto

lemma keycode_letters: "\<forall>i<26. map_of keycode_names (0x04 + int i) = Some [letters ! i]"
  using keycode_letters_all unfolding list_all_iff by auto

text \<open>
  C6: for every \<open>i\<close> in 0..25 the scancode of the \<open>i\<close>-th letter is \<open>0x04 + i\<close>, in
  \<open>SCANCODES\<close> and, read the other way, in \<open>keycode_names\<close> of the decoder; so A is 0x04
  and Z is 0x1D. The scancodes of \<open>SCANCODES\<close> are pairwise different, and so are its keys and
  the keys of \<open>keycode_names\<close>.
\<close>

theorem letter_scancodes_sequential:
  "length letters = 26 \<and>
   (\<forall>i<26. map_of SCANCODES [letters ! i] = Some (0x04 + int i)) \<and>
   (\<forall>i<26. map_of keycode_names (0x04 + int i) = Some [letters ! i]) \<and>
   map_of SCANCODES ''A'' = Some 0x04 \<and> map_of SCANCODES ''Z'' = Some 0x1D \<and>
   distinct (map fst SCANCODES) \<and> distinct (map snd SCANCODES) \<and>
   distinct (map fst keycode_names)"
proof -
  have a: "length letters = 26" by (simp add: letters_def)
  have b: "map_of SCANCODES ''A'' = Some 0x04" "map_of SCANCODES ''Z'' = Some 0x1D"
    by (simp_all add: SCANCODES_def)
  have c: "distinct (map fst SCANCODES)" by code_simp
  have d: "distinct (map snd SCANCODES)" by code_simp
  have e: "distinct (map fst keycode_names)" by code_simp
  from a b c d e scancode_letters keycode_letters show ?thesis by blast
qed

theorem letter_scancodes_sequential_witness:
  "map_of SCANCODES ''H'' = Some 0x0B \<and> map_of keycode_names 0x0B = Some ''H''"
proof -
  have "(7::nat) < 26" by simp
  with letter_scancodes_sequential
  have "map_of SCANCODES [letters ! 7] = Some (0x04 + int 7)"
    "map_of keycode_names (0x04 + int 7) = Some [letters ! 7]" by blast+
  then show ?thesis by (simp add: letters_def)
qed

section \<open>The mouse report\<close>

lemma mod_256_high:
  assumes "128 \<le> (x::int)" "x < 256"
  shows "(x + 128) mod 256 = x - 128"
proof -
  have "(x + 128) mod 256 = ((x - 128) + 256) mod 256"
    by (rule arg_cong [where f = "\<lambda>a. a mod 256"]) simp
  also have "\<dots> = (x - 128) mod 256" by (simp only: mod_add_self2)
  also have "\<dots> = x - 128" using assms by (intro mod_pos_pos_trivial) simp_all
  finally show ?thesis .
qed

lemma mod_256_neg:
  assumes "- 128 \<le> (v::int)" "v < 0"
  shows "v mod 256 = v + 256"
proof -
  have "v mod 256 = (v + 256) mod 256" by (simp only: mod_add_self2)
  also have "\<dots> = v + 256" using assms by (intro mod_pos_pos_trivial) simp_all
  finally show ?thesis .
qed

lemma sint_byte_of_int:
  assumes "0 \<le> x" "x < 256"
  shows "sint (word_of_int x :: 8 word) = (if x < 128 then x else x - 256)"
proof -
  have eq: "sint (word_of_int x :: 8 word) = (x + 128) mod 256 - 128"
    by (simp add: int_word_sint)
  show ?thesis
  proof (cases "x < 128")
    case True
    then have "(x + 128) mod 256 = x + 128"
      using assms by simp
    with eq True show ?thesis by simp
  next
    case False
    then have "(x + 128) mod 256 = x - 128"
      using assms mod_256_high [of x] by simp
    with eq False show ?thesis by simp
  qed
qed

lemma and_bit_int:
  "((b::int) AND 1 \<noteq> 0) = bit b 0" "((b::int) AND 2 \<noteq> 0) = bit b 1" "((b::int) AND 4 \<noteq> 0) = bit b 2"
  using and_exp_eq_0_iff_not_bit [of b 0] and_exp_eq_0_iff_not_bit [of b 1]
    and_exp_eq_0_iff_not_bit [of b 2] by simp_all

lemma read_mouse_report_Some:
  assumes "reply s (length (xlog s)) = Some b"
    and "reply s (length (xlog s) + 1) = Some xr"
    and "reply s (length (xlog s) + 2) = Some yr"
    and "reply s (length (xlog s) + 3) = Some wr"
  shows "read_mouse_report s =
     (Some \<lparr>buttons = b,
            delta_x = (if xr < 128 then xr else xr - 256),
            delta_y = (if yr < 128 then yr else yr - 256),
            wheel = (if wr < 128 then wr else wr - 256),
            left_button = bit b 0, right_button = bit b 1, middle_button = bit b 2\<rparr>,
      s\<lparr>xlog := xlog s @ [ReadReg 0x50, ReadReg 0x51, ReadReg 0x52, ReadReg 0x53]\<rparr>)"
  using assms
  by (simp add: read_mouse_report_def read_register_def and_bit_int eval_nat_numeral
      REG_MOUSE_BUTTONS_def REG_MOUSE_DELTA_X_def REG_MOUSE_DELTA_Y_def REG_MOUSE_WHEEL_def)

lemma signed_range:
  "0 \<le> (x::int) \<and> x \<le> 255 \<Longrightarrow>
   - 128 \<le> (if x < 128 then x else x - 256) \<and> (if x < 128 then x else x - 256) \<le> 127"
  by simp

lemma signed_roundtrip:
  "- 128 \<le> (v::int) \<and> v \<le> 127 \<and> x = v mod 256 \<longrightarrow> (if x < 128 then x else x - 256) = v"
proof (intro impI, elim conjE)
  assume v: "- 128 \<le> v" "v \<le> 127" and x: "x = v mod 256"
  show "(if x < 128 then x else x - 256) = v"
  proof (cases "v < 0")
    case True
    then have "x = v + 256" using v x mod_256_neg [of v] by simp
    with v show ?thesis by simp
  next
    case False
    then have "x = v" using v x by simp
    with v show ?thesis by simp
  qed
qed

lemma signed_is_sint:
  "0 \<le> (x::int) \<and> x \<le> 255 \<Longrightarrow> (if x < 128 then x else x - 256) = sint (word_of_int x :: 8 word)"
  using sint_byte_of_int [of x] by simp

text \<open>
  C4: when the four mouse registers are read and the raw delta-x, delta-y and wheel bytes lie
  in [0, 255], \<open>read_mouse_report\<close> returns a report whose \<open>delta_x\<close>, \<open>delta_y\<close> and
  \<open>wheel\<close> are \<open>b if b < 128 else b - 256\<close> of their raw byte, which is the two's-complement
  reading \<open>sint\<close> of that byte as an 8-bit word; each lies in [-128, 127]; whenever the raw
  byte is the two's-complement byte \<open>v mod 256\<close> of a value \<open>v\<close> in [-128, 127], the decoded
  value is \<open>v\<close>; and the left, right and middle booleans are bits 0, 1 and 2 of the buttons
  register. The four reads are of registers 0x50 to 0x53, in that order.
\<close>

theorem read_mouse_report_signed:
  assumes "reply s (length (xlog s)) = Some b"
    and "reply s (length (xlog s) + 1) = Some xr"
    and "reply s (length (xlog s) + 2) = Some yr"
    and "reply s (length (xlog s) + 3) = Some wr"
    and "0 \<le> xr \<and> xr \<le> 255" and "0 \<le> yr \<and> yr \<le> 255" and "0 \<le> wr \<and> wr \<le> 255"
  shows "\<exists>r. read_mouse_report s =
            (Some r, s\<lparr>xlog := xlog s @ [ReadReg 0x50, ReadReg 0x51, ReadReg 0x52, ReadReg 0x53]\<rparr>) \<and>
          buttons r = b \<and>
          delta_x r = (if xr < 128 then xr else xr - 256) \<and>
          delta_y r = (if yr < 128 then yr else yr - 256) \<and>
          wheel r = (if wr < 128 then wr else wr - 256) \<and>
          delta_x r = sint (word_of_int xr :: 8 word) \<and>
          delta_y r = sint (word_of_int yr :: 8 word) \<and>
          wheel r = sint (word_of_int wr :: 8 word) \<and>
          (- 128 \<le> delta_x r \<and> delta_x r \<le> 127) \<and>
          (- 128 \<le> delta_y r \<and> delta_y r \<le> 127) \<and>
          (- 128 \<le> wheel r \<and> wheel r \<le> 127) \<and>
          (\<forall>v. - 128 \<le> v \<and> v \<le> 127 \<and> xr = v mod 256 \<longrightarrow> delta_x r = v) \<and>
          (\<forall>v. - 128 \<le> v \<and> v \<le> 127 \<and> yr = v mod 256 \<longrightarrow> delta_y r = v) \<and>
          (\<forall>v. - 128 \<le> v \<and> v \<le> 127 \<and> wr = v mod 256 \<longrightarrow> wheel r = v) \<and>
          left_button r = bit b 0 \<and> right_button r = bit b 1 \<and> middle_button r = bit b 2"
proof -
  let ?r = "\<lparr>buttons = b,
            delta_x = (if xr < 128 then xr else xr - 256),
            delta_y = (if yr < 128 then yr else yr - 256),
            wheel = (if wr < 128 then wr else wr - 256),
            left_button = bit b 0, right_button = bit b 1, middle_button = bit b 2\<rparr>"
  have run: "read_mouse_report s =
      (Some ?r, s\<lparr>xlog := xlog s @ [ReadReg 0x50, ReadReg 0x51, ReadReg 0x52, ReadReg 0x53]\<rparr>)"
    using assms(1-4) by (rule read_mouse_report_Some)
  have dx: "delta_x ?r = (if xr < 128 then xr else xr - 256)"
    and dy: "delta_y ?r = (if yr < 128 then yr else yr - 256)"
    and dw: "wheel ?r = (if wr < 128 then wr else wr - 256)"
    by (simp_all only: mouse_report.select_convs)
  show ?thesis
  proof (rule exI [of _ ?r], intro conjI)
    show "read_mouse_report s =
      (Some ?r, s\<lparr>xlog := xlog s @ [ReadReg 0x50, ReadReg 0x51, ReadReg 0x52, ReadReg 0x53]\<rparr>)"
      by (rule run)
    show "buttons ?r = b" by (simp only: mouse_report.select_convs)
    show "delta_x ?r = (if xr < 128 then xr else xr - 256)" by (rule dx)
    show "delta_y ?r = (if yr < 128 then yr else yr - 256)" by (rule dy)
    show "wheel ?r = (if wr < 128 then wr else wr - 256)" by (rule dw)
    show "delta_x ?r = sint (word_of_int xr :: 8 word)"
      unfolding dx using assms(5) by (rule signed_is_sint)
    show "delta_y ?r = sint (word_of_int yr :: 8 word)"
      unfolding dy using assms(6) by (rule signed_is_sint)
    show "wheel ?r = sint (word_of_int wr :: 8 word)"
      unfolding dw using assms(7) by (rule signed_is_sint)
    show "- 128 \<le> delta_x ?r" unfolding dx using signed_range [OF assms(5)] by (rule conjunct1)
    show "delta_x ?r \<le> 127" unfolding dx using signed_range [OF assms(5)] by (rule conjunct2)
    show "- 128 \<le> delta_y ?r" unfolding dy using signed_range [OF assms(6)] by (rule conjunct1)
    show "delta_y ?r \<le> 127" unfolding dy using signed_range [OF assms(6)] by (rule conjunct2)
    show "- 128 \<le> wheel ?r" unfolding dw using signed_range [OF assms(7)] by (rule conjunct1)
    show "wheel ?r \<le> 127" unfolding dw using signed_range [OF assms(7)] by (rule conjunct2)
    show "\<forall>v. - 128 \<le> v \<and> v \<le> 127 \<and> xr = v mod 256 \<longrightarrow> delta_x ?r = v"
      unfolding dx by (rule allI) (rule signed_roundtrip)
    show "\<forall>v. - 128 \<le> v \<and> v \<le> 127 \<and> yr = v mod 256 \<longrightarrow> delta_y ?r = v"
      unfolding dy by (rule allI) (rule signed_roundtrip)
    show "\<forall>v. - 128 \<le> v \<and> v \<le> 127 \<and> wr = v mod 256 \<longrightarrow> wheel ?r = v"
      unfolding dw by (rule allI) (rule signed_roundtrip)
    show "left_button ?r = bit b 0" by (simp only: mouse_report.select_convs)
    show "right_button ?r = bit b 1" by (simp only: mouse_report.select_convs)
    show "middle_button ?r = bit b 2" by (simp only: mouse_report.select_convs)
  qed
qed

theorem read_mouse_report_signed_witness:
  "\<exists>r. fst (read_mouse_report dev_mouse) = Some r \<and> delta_x r = - 10 \<and> delta_y r = 10 \<and>
       wheel r = - 1 \<and> left_button r \<and> \<not> right_button r \<and> middle_button r"
proof -
  have h: "reply dev_mouse (length (xlog dev_mouse)) = Some 5"
    "reply dev_mouse (length (xlog dev_mouse) + 1) = Some 246"
    "reply dev_mouse (length (xlog dev_mouse) + 2) = Some 10"
    "reply dev_mouse (length (xlog dev_mouse) + 3) = Some 255"
    "0 \<le> (246::int) \<and> (246::int) \<le> 255" "0 \<le> (10::int) \<and> (10::int) \<le> 255"
    "0 \<le> (255::int) \<and> (255::int) \<le> 255"
    by (simp_all add: dev_mouse_def)
  have b: "bit (5::int) 0" "\<not> bit (5::int) 1" "bit (5::int) 2"
    by (simp_all add: bit_iff_odd)
  from read_mouse_report_signed [OF h] obtain r where
    r: "read_mouse_report dev_mouse =
            (Some r, dev_mouse\<lparr>xlog := xlog dev_mouse @ [ReadReg 0x50, ReadReg 0x51, ReadReg 0x52, ReadReg 0x53]\<rparr>)"
      and dx: "delta_x r = (if (246::int) < 128 then 246 else 246 - 256)"
      and dy: "delta_y r = (if (10::int) < 128 then 10 else 10 - 256)"
      and w: "wheel r = (if (255::int) < 128 then 255 else 255 - 256)"
      and lb: "left_button r = bit (5::int) 0" and rb: "right_button r = bit (5::int) 1"
      and mb: "middle_button r = bit (5::int) 2"
    by (elim exE conjE) (rule that; assumption)
  have "fst (read_mouse_report dev_mouse) = Some r" by (simp only: r fst_conv)
  moreover have "delta_x r = - 10" by (simp only: dx) simp
  moreover have "delta_y r = 10" by (simp only: dy) simp
  moreover have "wheel r = - 1" by (simp only: w) simp
  moreover have "left_button r" by (simp only: lb b)
  moreover have "\<not> right_button r" by (simp only: rb b) simp
  moreover have "middle_button r" by (simp only: mb b)
  ultimately show ?thesis by (intro exI [of _ r] conjI)
qed

section \<open>The enumeration status check\<close>

lemma read_done_flag_eq:
  "read_done_flag st s =
     (case reply s (length (xlog s)) of None \<Rightarrow> st | Some d \<Rightarrow> st\<lparr>done_status := (d \<noteq> 0)\<rparr>,
      s\<lparr>xlog := xlog s @ [ReadReg 0x02]\<rparr>)"
  by (simp add: read_done_flag_def read_register_def REG_ENUM_DONE_def)

lemma read_error_flag_eq:
  "read_error_flag st s =
     (case reply s (length (xlog s)) of None \<Rightarrow> st | Some e \<Rightarrow> st\<lparr>error := (e \<noteq> 0)\<rparr>,
      s\<lparr>xlog := xlog s @ [ReadReg 0x03]\<rparr>)"
  by (simp add: read_error_flag_def read_register_def REG_ENUM_ERROR_def)

lemma read_error_code_eq:
  "read_error_code st s =
     (case reply s (length (xlog s)) of None \<Rightarrow> st | Some c \<Rightarrow> st\<lparr>error_code := c\<rparr>,
      s\<lparr>xlog := xlog s @ [ReadReg 0x04]\<rparr>)"
  by (simp add: read_error_code_def read_register_def REG_ENUM_ERROR_CODE_def)

lemma read_keyboard_active_eq:
  "read_keyboard_active st s =
     (case reply s (length (xlog s)) of None \<Rightarrow> st | Some k \<Rightarrow> st\<lparr>keyboard_active := (k \<noteq> 0)\<rparr>,
      s\<lparr>xlog := xlog s @ [ReadReg 0x20]\<rparr>)"
  by (simp add: read_keyboard_active_def read_register_def REG_KBD_ACTIVE_def)

lemma read_mouse_active_eq:
  "read_mouse_active st s =
     (case reply s (length (xlog s)) of None \<Rightarrow> st | Some m \<Rightarrow> st\<lparr>mouse_active := (m \<noteq> 0)\<rparr>,
      s\<lparr>xlog := xlog s @ [ReadReg 0x40]\<rparr>)"
  by (simp add: read_mouse_active_def read_register_def REG_MOUSE_ACTIVE_def)

lemma read_vid_pid_skip:
  "\<not> (done_status st \<and> \<not> error st) \<Longrightarrow> read_vid_pid st s = (st, s)"
  by (auto simp add: read_vid_pid_def)

lemma read_vid_pid_run:
  "done_status st \<and> \<not> error st \<Longrightarrow>
   read_vid_pid st s =
     (case (reply s (length (xlog s)), reply s (length (xlog s) + 1),
            reply s (length (xlog s) + 2), reply s (length (xlog s) + 3)) of
        (Some vl, Some vh, Some pl, Some ph) \<Rightarrow>
           st\<lparr>vendor_id := push_bit 8 vh OR vl, product_id := push_bit 8 ph OR pl\<rparr>
      | _ \<Rightarrow> st,
      s\<lparr>xlog := xlog s @ [ReadReg 0x10, ReadReg 0x11, ReadReg 0x12, ReadReg 0x13]\<rparr>)"
  by (simp add: read_vid_pid_def read_register_def eval_nat_numeral
      REG_VENDOR_ID_LO_def REG_VENDOR_ID_HI_def REG_PRODUCT_ID_LO_def REG_PRODUCT_ID_HI_def
      split: option.split)

lemma read_done_flag_fields:
  "done_status (fst (read_done_flag st s)) =
     (case reply s (length (xlog s)) of None \<Rightarrow> done_status st | Some v \<Rightarrow> v \<noteq> 0)"
  "error (fst (read_done_flag st s)) = error st"
  "vendor_id (fst (read_done_flag st s)) = vendor_id st"
  "product_id (fst (read_done_flag st s)) = product_id st"
  "reply (snd (read_done_flag st s)) = reply s"
  "xlog (snd (read_done_flag st s)) = xlog s @ [ReadReg 0x02]"
  by (simp_all add: read_done_flag_eq split: option.split)

lemma read_error_flag_fields:
  "error (fst (read_error_flag st s)) =
     (case reply s (length (xlog s)) of None \<Rightarrow> error st | Some v \<Rightarrow> v \<noteq> 0)"
  "done_status (fst (read_error_flag st s)) = done_status st"
  "vendor_id (fst (read_error_flag st s)) = vendor_id st"
  "product_id (fst (read_error_flag st s)) = product_id st"
  "reply (snd (read_error_flag st s)) = reply s"
  "xlog (snd (read_error_flag st s)) = xlog s @ [ReadReg 0x03]"
  by (simp_all add: read_error_flag_eq split: option.split)

lemma read_error_code_fields:
  "error_code (fst (read_error_code st s)) =
     (case reply s (length (xlog s)) of None \<Rightarrow> error_code st | Some v \<Rightarrow> v)"
  "done_status (fst (read_error_code st s)) = done_status st"
  "error (fst (read_error_code st s)) = error st"
  "vendor_id (fst (read_error_code st s)) = vendor_id st"
  "product_id (fst (read_error_code st s)) = product_id st"
  "reply (snd (read_error_code st s)) = reply s"
  "xlog (snd (read_error_code st s)) = xlog s @ [ReadReg 0x04]"
  by (simp_all add: read_error_code_eq split: option.split)

lemma read_keyboard_active_fields:
  "keyboard_active (fst (read_keyboard_active st s)) =
     (case reply s (length (xlog s)) of None \<Rightarrow> keyboard_active st | Some v \<Rightarrow> v \<noteq> 0)"
  "done_status (fst (read_keyboard_active st s)) = done_status st"
  "error (fst (read_keyboard_active st s)) = error st"
  "vendor_id (fst (read_keyboard_active st s)) = vendor_id st"
  "product_id (fst (read_keyboard_active st s)) = product_id st"
  "reply (snd (read_keyboard_active st s)) = reply s"
  "xlog (snd (read_keyboard_active st s)) = xlog s @ [ReadReg 0x20]"
  by (simp_all add: read_keyboard_active_eq split: option.split)

lemma read_mouse_active_fields:
  "mouse_active (fst (read_mouse_active st s)) =
     (case reply s (length (xlog s)) of None \<Rightarrow> mouse_active st | Some v \<Rightarrow> v \<noteq> 0)"
  "done_status (fst (read_mouse_active st s)) = done_status st"
  "error (fst (read_mouse_active st s)) = error st"
  "vendor_id (fst (read_mouse_active st s)) = vendor_id st"
  "product_id (fst (read_mouse_active st s)) = product_id st"
  "reply (snd (read_mouse_active st s)) = reply s"
  "xlog (snd (read_mouse_active st s)) = xlog s @ [ReadReg 0x40]"
  by (simp_all add: read_mouse_active_eq split: option.split)

lemma read_vid_pid_fields:
  "done_status (fst (read_vid_pid st s)) = done_status st" (is ?A)
  "error (fst (read_vid_pid st s)) = error st" (is ?B)
  "reply (snd (read_vid_pid st s)) = reply s" (is ?C)
  "xlog (snd (read_vid_pid st s)) =
     xlog s @ (if done_status st \<and> \<not> error st
               then [ReadReg 0x10, ReadReg 0x11, ReadReg 0x12, ReadReg 0x13] else [])" (is ?D)
  "vendor_id (fst (read_vid_pid st s)) =
     (if done_status st \<and> \<not> error st
      then (case (reply s (length (xlog s)), reply s (length (xlog s) + 1),
                  reply s (length (xlog s) + 2), reply s (length (xlog s) + 3)) of
              (Some vl, Some vh, Some pl, Some ph) \<Rightarrow> push_bit 8 vh OR vl
            | _ \<Rightarrow> vendor_id st)
      else vendor_id st)" (is ?E)
  "product_id (fst (read_vid_pid st s)) =
     (if done_status st \<and> \<not> error st
      then (case (reply s (length (xlog s)), reply s (length (xlog s) + 1),
                  reply s (length (xlog s) + 2), reply s (length (xlog s) + 3)) of
              (Some vl, Some vh, Some pl, Some ph) \<Rightarrow> push_bit 8 ph OR pl
            | _ \<Rightarrow> product_id st)
      else product_id st)" (is ?F)
proof -
  show ?A by (cases "done_status st"; cases "error st";
      simp add: read_vid_pid_skip read_vid_pid_run split: option.split)
  show ?B by (cases "done_status st"; cases "error st";
      simp add: read_vid_pid_skip read_vid_pid_run split: option.split)
  show ?C by (cases "done_status st"; cases "error st";
      simp add: read_vid_pid_skip read_vid_pid_run split: option.split)
  show ?D by (cases "done_status st"; cases "error st";
      simp add: read_vid_pid_skip read_vid_pid_run split: option.split)
  show ?E by (cases "done_status st"; cases "error st";
      simp add: read_vid_pid_skip read_vid_pid_run split: option.split)
  show ?F by (cases "done_status st"; cases "error st";
      simp add: read_vid_pid_skip read_vid_pid_run split: option.split)
qed

lemmas block_fields =
  read_done_flag_fields read_error_flag_fields read_error_code_fields read_vid_pid_fields
  read_keyboard_active_fields read_mouse_active_fields

lemmas ces_simps = check_enumeration_status_def Let_def split_def block_fields

lemma ces_done:
  "done_status (fst (check_enumeration_status s)) =
     (\<exists>d. reply s (length (xlog s)) = Some d \<and> d \<noteq> 0)"
  by (cases "reply s (length (xlog s))") (simp_all add: ces_simps)

lemma ces_error:
  "error (fst (check_enumeration_status s)) =
     (\<exists>e. reply s (Suc (length (xlog s))) = Some e \<and> e \<noteq> 0)"
  by (cases "reply s (Suc (length (xlog s)))") (simp_all add: ces_simps)

lemma ces_reply: "reply (snd (check_enumeration_status s)) = reply s"
  by (simp add: ces_simps)

lemma ces_vendor_id:
  "vendor_id (fst (check_enumeration_status s)) =
     (if (\<exists>d. reply s (length (xlog s)) = Some d \<and> d \<noteq> 0) \<and>
         \<not> (\<exists>e. reply s (Suc (length (xlog s))) = Some e \<and> e \<noteq> 0)
      then (case (reply s (length (xlog s) + 3), reply s (length (xlog s) + 4),
                  reply s (length (xlog s) + 5), reply s (length (xlog s) + 6)) of
              (Some vl, Some vh, Some pl, Some ph) \<Rightarrow> push_bit 8 vh OR vl
            | _ \<Rightarrow> 0)
      else 0)"
  apply (cases "reply s (length (xlog s))"; cases "reply s (Suc (length (xlog s)))")
     apply (simp_all add: ces_simps eval_nat_numeral)
   apply (simp_all add: block_fields split: option.split)
  done

lemma ces_product_id:
  "product_id (fst (check_enumeration_status s)) =
     (if (\<exists>d. reply s (length (xlog s)) = Some d \<and> d \<noteq> 0) \<and>
         \<not> (\<exists>e. reply s (Suc (length (xlog s))) = Some e \<and> e \<noteq> 0)
      then (case (reply s (length (xlog s) + 3), reply s (length (xlog s) + 4),
                  reply s (length (xlog s) + 5), reply s (length (xlog s) + 6)) of
              (Some vl, Some vh, Some pl, Some ph) \<Rightarrow> push_bit 8 ph OR pl
            | _ \<Rightarrow> 0)
      else 0)"
  apply (cases "reply s (length (xlog s))"; cases "reply s (Suc (length (xlog s)))")
     apply (simp_all add: ces_simps eval_nat_numeral)
   apply (simp_all add: block_fields split: option.split)
  done

lemma ces_xlog:
  "xlog (snd (check_enumeration_status s)) =
     xlog s @ [ReadReg 0x02, ReadReg 0x03, ReadReg 0x04] @
       (if (\<exists>d. reply s (length (xlog s)) = Some d \<and> d \<noteq> 0) \<and>
           \<not> (\<exists>e. reply s (Suc (length (xlog s))) = Some e \<and> e \<noteq> 0)
        then [ReadReg 0x10, ReadReg 0x11, ReadReg 0x12, ReadReg 0x13] else []) @
       [ReadReg 0x20, ReadReg 0x40]"
  by (cases "reply s (length (xlog s))"; cases "reply s (Suc (length (xlog s)))")
    (simp_all add: ces_simps)

text \<open>
  C1, as stated, fails when the read of the enum-error register fails: the \<open>'error'\<close> field
  keeps its default \<open>False\<close>, so with enum-done reading 1 the ids are assembled although
  the enum-error register did not read zero.
\<close>

theorem error_read_fails_counterexample:
  "reply dev_error_read_fails (length (xlog dev_error_read_fails)) = Some 1 \<and>
   reply dev_error_read_fails (Suc (length (xlog dev_error_read_fails))) = None \<and>
   vendor_id (fst (check_enumeration_status dev_error_read_fails)) = 0x1d50 \<and>
   product_id (fst (check_enumeration_status dev_error_read_fails)) = 0x615b"
  by (simp add: ces_vendor_id ces_product_id) (simp add: dev_error_read_fails_def)

text \<open>
  C1, amended: \<open>'done'\<close> is true exactly when the enum-done read returns a non-zero value and
  \<open>'error'\<close> exactly when the enum-error read returns a non-zero value. Unless done is true
  and error is false, \<open>vendor_id\<close> and \<open>product_id\<close> are 0 and the identity registers are
  not read at all; so a non-zero id implies that enum-done read non-zero and that enum-error
  read zero or could not be read. When done is true and error is false and all four identity
  reads succeed, \<open>vendor_id = (vid_hi << 8) | vid_lo\<close> and
  \<open>product_id = (pid_hi << 8) | pid_lo\<close>; when one of them fails both ids stay 0.
\<close>

theorem check_enumeration_status_ids:
  "(done_status (fst (check_enumeration_status s)) \<longleftrightarrow>
      (\<exists>d. reply s (length (xlog s)) = Some d \<and> d \<noteq> 0)) \<and>
   (error (fst (check_enumeration_status s)) \<longleftrightarrow>
      (\<exists>e. reply s (length (xlog s) + 1) = Some e \<and> e \<noteq> 0)) \<and>
   (\<not> (done_status (fst (check_enumeration_status s)) \<and>
        \<not> error (fst (check_enumeration_status s))) \<longrightarrow>
      vendor_id (fst (check_enumeration_status s)) = 0 \<and>
      product_id (fst (check_enumeration_status s)) = 0) \<and>
   (vendor_id (fst (check_enumeration_status s)) \<noteq> 0 \<or>
    product_id (fst (check_enumeration_status s)) \<noteq> 0 \<longrightarrow>
      (\<exists>d. reply s (length (xlog s)) = Some d \<and> d \<noteq> 0) \<and>
      (reply s (length (xlog s) + 1) = None \<or> reply s (length (xlog s) + 1) = Some 0)) \<and>
   (done_status (fst (check_enumeration_status s)) \<and>
    \<not> error (fst (check_enumeration_status s)) \<longrightarrow>
      (\<forall>vl vh pl ph.
         reply s (length (xlog s) + 3) = Some vl \<and> reply s (length (xlog s) + 4) = Some vh \<and>
         reply s (length (xlog s) + 5) = Some pl \<and> reply s (length (xlog s) + 6) = Some ph \<longrightarrow>
         vendor_id (fst (check_enumeration_status s)) = push_bit 8 vh OR vl \<and>
         product_id (fst (check_enumeration_status s)) = push_bit 8 ph OR pl)) \<and>
   (done_status (fst (check_enumeration_status s)) \<and>
    \<not> error (fst (check_enumeration_status s)) \<and>
    (reply s (length (xlog s) + 3) = None \<or> reply s (length (xlog s) + 4) = None \<or>
     reply s (length (xlog s) + 5) = None \<or> reply s (length (xlog s) + 6) = None) \<longrightarrow>
      vendor_id (fst (check_enumeration_status s)) = 0 \<and>
      product_id (fst (check_enumeration_status s)) = 0) \<and>
   xlog (snd (check_enumeration_status s)) =
     xlog s @ [ReadReg 0x02, ReadReg 0x03, ReadReg 0x04] @
       (if done_status (fst (check_enumeration_status s)) \<and>
           \<not> error (fst (check_enumeration_status s))
        then [ReadReg 0x10, ReadReg 0x11, ReadReg 0x12, ReadReg 0x13] else []) @
       [ReadReg 0x20, ReadReg 0x40]"
  (is "?A \<and> ?B \<and> ?C \<and> ?D \<and> ?E \<and> ?F \<and> ?G")
proof -
  let ?P = "(\<exists>d. reply s (length (xlog s)) = Some d \<and> d \<noteq> 0) \<and>
            \<not> (\<exists>e. reply s (Suc (length (xlog s))) = Some e \<and> e \<noteq> 0)"
  have p: "(done_status (fst (check_enumeration_status s)) \<and>
            \<not> error (fst (check_enumeration_status s))) = ?P"
    by (simp only: ces_done ces_error)
  have a: ?A by (rule ces_done)
  have b: ?B by (simp add: ces_error)
  have c: ?C unfolding p
    by (cases ?P) (simp_all only: ces_vendor_id ces_product_id if_False, simp_all)
  have d: ?D
  proof (cases ?P)
    case True
    then show ?thesis by (cases "reply s (Suc (length (xlog s)))") auto
  next
    case False
    then have "vendor_id (fst (check_enumeration_status s)) = 0"
      "product_id (fst (check_enumeration_status s)) = 0"
      by (simp_all only: ces_vendor_id ces_product_id if_False)
    then show ?thesis by simp
  qed
  have e: ?E unfolding p
    by (cases ?P) (simp_all only: ces_vendor_id ces_product_id if_True, simp_all)
  have f: ?F unfolding p
    by (cases ?P) (simp_all only: ces_vendor_id ces_product_id if_True, auto split: option.split)
  have g: ?G unfolding p by (simp add: ces_xlog)
  show ?thesis by (intro conjI a b c d e f g)
qed

theorem check_enumeration_status_ids_witness:
  "done_status (fst (check_enumeration_status dev_enumerated)) \<and>
   \<not> error (fst (check_enumeration_status dev_enumerated)) \<and>
   vendor_id (fst (check_enumeration_status dev_enumerated)) = 0x1d50 \<and>
   product_id (fst (check_enumeration_status dev_enumerated)) = 0x615b \<and>
   vendor_id (fst (check_enumeration_status dev_idle)) = 0 \<and>
   product_id (fst (check_enumeration_status dev_idle)) = 0"
proof -
  have r: "reply dev_enumerated (length (xlog dev_enumerated)) = Some 1"
    "reply dev_enumerated (length (xlog dev_enumerated) + 1) = Some 0"
    "reply dev_enumerated (length (xlog dev_enumerated) + 3) = Some 0x50"
    "reply dev_enumerated (length (xlog dev_enumerated) + 4) = Some 0x1d"
    "reply dev_enumerated (length (xlog dev_enumerated) + 5) = Some 0x5b"
    "reply dev_enumerated (length (xlog dev_enumerated) + 6) = Some 0x61"
    by (simp_all add: dev_enumerated_def)
  have i: "reply dev_idle (length (xlog dev_idle)) = Some 0"
    by (simp add: dev_idle_def)
  note t = check_enumeration_status_ids [of dev_enumerated]
  note u = check_enumeration_status_ids [of dev_idle]
  have dn: "done_status (fst (check_enumeration_status dev_enumerated))"
    using t [THEN conjunct1] r(1) by simp
  have er: "\<not> error (fst (check_enumeration_status dev_enumerated))"
    using t [THEN conjunct2, THEN conjunct1] r(2) by simp
  have ids: "vendor_id (fst (check_enumeration_status dev_enumerated)) = push_bit 8 0x1d OR 0x50 \<and>
     product_id (fst (check_enumeration_status dev_enumerated)) = push_bit 8 0x61 OR 0x5b"
    using t [THEN conjunct2, THEN conjunct2, THEN conjunct2, THEN conjunct2, THEN conjunct1]
      dn er r(3-6) by blast
  have nd: "\<not> done_status (fst (check_enumeration_status dev_idle))"
    using u [THEN conjunct1] i by simp
  have z: "vendor_id (fst (check_enumeration_status dev_idle)) = 0 \<and>
     product_id (fst (check_enumeration_status dev_idle)) = 0"
    using u [THEN conjunct2, THEN conjunct2, THEN conjunct1] nd by blast
  from dn er ids z show ?thesis by simp
qed

section \<open>The keyboard report decoder\<close>

lemma modifiers_loop_filter:
  "modifiers_loop ms b0 acc =
     acc @ map snd (filter (\<lambda>(bitv, name). b0 AND bitv \<noteq> 0) ms)"
  by (induction ms arbitrary: acc) auto

lemma keys_loop_filter:
  "keys_loop idxs report acc =
     acc @ map (\<lambda>i. key_name (uint (report ! i))) (filter (\<lambda>i. report ! i \<noteq> 0) idxs)"
  by (induction idxs arbitrary: acc) (auto simp add: uint_0_iff)

lemma uint_and_exp: "(uint (w :: 8 word) AND 2 ^ k \<noteq> 0) = (k < 8 \<and> bit w k)"
  using and_exp_eq_0_iff_not_bit [of "uint w" k] by (simp add: bit_uint_iff)

lemma uint_and_modifier_bits:
  "(uint (w :: 8 word) AND 0x01 \<noteq> 0) = bit w 0"
  "(uint w AND 0x02 \<noteq> 0) = bit w 1"
  "(uint w AND 0x04 \<noteq> 0) = bit w 2"
  "(uint w AND 0x08 \<noteq> 0) = bit w 3"
  "(uint w AND 0x10 \<noteq> 0) = bit w 4"
  "(uint w AND 0x20 \<noteq> 0) = bit w 5"
  "(uint w AND 0x40 \<noteq> 0) = bit w 6"
  "(uint w AND 0x80 \<noteq> 0) = bit w 7"
  using uint_and_exp [of w 0] uint_and_exp [of w 1] uint_and_exp [of w 2] uint_and_exp [of w 3]
    uint_and_exp [of w 4] uint_and_exp [of w 5] uint_and_exp [of w 6] uint_and_exp [of w 7]
  by simp_all

lemma upt_0_8: "[0..<8] = [0, 1, 2, 3, 4, 5, 6, 7::nat]"
  by (simp add: upt_conv_Cons)

lemma upt_2_8: "[2..<8] = [2, 3, 4, 5, 6, 7::nat]"
  by (simp add: upt_conv_Cons)

lemma modifiers_of_byte:
  "modifiers_loop modifier_names (uint (w :: 8 word)) [] =
     map (\<lambda>k. snd (modifier_names ! k)) (filter (\<lambda>k. bit w k) [0..<8])"
  unfolding modifiers_loop_filter upt_0_8
  by (simp add: modifier_names_def uint_and_modifier_bits)

lemma drop2_of_8:
  assumes "length (report :: 'a list) = 8"
  shows "map (\<lambda>i. report ! i) [2..<8] = drop 2 report"
proof -
  have "drop 2 report = drop 2 (map (\<lambda>i. report ! i) [0..<length report])"
    by (simp only: map_nth)
  also have "\<dots> = map (\<lambda>i. report ! i) (drop 2 [0..<length report])"
    by (simp only: drop_map)
  also have "\<dots> = map (\<lambda>i. report ! i) [2..<8]"
    unfolding drop_upt assms by (simp add: upt_conv_Cons eval_nat_numeral)
  finally show ?thesis by simp
qed

lemma keys_of_report:
  assumes "length report = 8"
  shows "keys_loop [2..<8] report [] =
           map (\<lambda>b. key_name (uint b)) (filter (\<lambda>b. b \<noteq> 0) (drop 2 report))"
proof -
  have "keys_loop [2..<8] report [] =
      map (\<lambda>b. key_name (uint b)) (filter (\<lambda>b. b \<noteq> 0) (map (\<lambda>i. report ! i) [2..<8]))"
    by (simp only: keys_loop_filter append_Nil filter_map map_map comp_def)
  then show ?thesis by (simp only: drop2_of_8 [OF assms])
qed

text \<open>
  C3: on a report of 8 bytes \<open>decode_keyboard_report\<close> returns a dictionary whose
  \<open>'modifiers'\<close> list is the names of the bits set in byte 0, in bit order, and whose
  \<open>'keys'\<close> list has one entry for each non-zero byte among bytes 2 to 7, in byte order, the
  zero bytes being skipped; \<open>'raw'\<close> is the hexadecimal text of the whole report. The result
  is a function of the report alone: the model has no state, and the report, an immutable
  \<open>bytes\<close> object, is only read.
\<close>

theorem decode_keyboard_report_fields:
  assumes "length report = 8"
  shows "\<exists>d. decode_keyboard_report report = Some d \<and>
           modifiers d = map (\<lambda>k. snd (modifier_names ! k)) (filter (\<lambda>k. bit (report ! 0) k) [0..<8]) \<and>
           keys d = map (\<lambda>i. key_name (uint (report ! i))) (filter (\<lambda>i. report ! i \<noteq> 0) [2..<8]) \<and>
           keys d = map (\<lambda>b. key_name (uint b)) (filter (\<lambda>b. b \<noteq> 0) (drop 2 report)) \<and>
           length (keys d) = length (filter (\<lambda>b. b \<noteq> 0) (drop 2 report)) \<and>
           raw d = bytes_hex report"
proof -
  let ?d = "\<lparr>modifiers = modifiers_loop modifier_names (uint (report ! 0)) [],
             keys = keys_loop [2..<8] report [],
             raw = bytes_hex report\<rparr>"
  have run: "decode_keyboard_report report = Some ?d"
    using assms by (simp add: decode_keyboard_report_def)
  have m: "modifiers ?d =
      map (\<lambda>k. snd (modifier_names ! k)) (filter (\<lambda>k. bit (report ! 0) k) [0..<8])"
    by (simp only: keyboard_decoded.select_convs modifiers_of_byte)
  have k1: "keys ?d =
      map (\<lambda>i. key_name (uint (report ! i))) (filter (\<lambda>i. report ! i \<noteq> 0) [2..<8])"
    by (simp only: keyboard_decoded.select_convs keys_loop_filter append_Nil)
  have k2: "keys ?d = map (\<lambda>b. key_name (uint b)) (filter (\<lambda>b. b \<noteq> 0) (drop 2 report))"
    by (simp only: keyboard_decoded.select_convs keys_of_report [OF assms])
  have k3: "length (keys ?d) = length (filter (\<lambda>b. b \<noteq> 0) (drop 2 report))"
    by (simp only: k2 length_map)
  have r: "raw ?d = bytes_hex report"
    by (simp only: keyboard_decoded.select_convs)
  show ?thesis
    by (rule exI [of _ ?d]) (intro conjI run m k1 k2 k3 r)
qed

theorem decode_keyboard_report_fields_witness:
  "\<exists>d. decode_keyboard_report report_ctrl_shift_a = Some d \<and>
       modifiers d = [''LEFT_CTRL'', ''LEFT_SHIFT''] \<and>
       keys d = [''A'', ''KEY_65''] \<and>
       raw d = ''0300040065000000''"
proof -
  have len: "length report_ctrl_shift_a = 8"
    by (simp add: report_ctrl_shift_a_def)
  have ev: "map (\<lambda>k. snd (modifier_names ! k))
              (filter (\<lambda>k. bit (report_ctrl_shift_a ! 0) k) [0..<8]) = [''LEFT_CTRL'', ''LEFT_SHIFT'']"
    "map (\<lambda>i. key_name (uint (report_ctrl_shift_a ! i)))
       (filter (\<lambda>i. report_ctrl_shift_a ! i \<noteq> 0) [2..<8]) = [''A'', ''KEY_65'']"
    "bytes_hex report_ctrl_shift_a = ''0300040065000000''"
    by code_simp+
  from decode_keyboard_report_fields [OF len] obtain d where
    d: "decode_keyboard_report report_ctrl_shift_a = Some d"
    and m: "modifiers d = map (\<lambda>k. snd (modifier_names ! k))
              (filter (\<lambda>k. bit (report_ctrl_shift_a ! 0) k) [0..<8])"
    and k: "keys d = map (\<lambda>i. key_name (uint (report_ctrl_shift_a ! i)))
              (filter (\<lambda>i. report_ctrl_shift_a ! i \<noteq> 0) [2..<8])"
    and r: "raw d = bytes_hex report_ctrl_shift_a"
    by (elim exE conjE) (rule that; assumption)
  show ?thesis
    by (rule exI [of _ d]) (simp only: d m k r ev simp_thms)
qed

section \<open>The descriptor.add command line\<close>

lemma hex_digits_small: "n < 16 \<Longrightarrow> hex_digits n = [hexdigit n]"
  by (simp add: hex_digits.simps)

lemma hex_digits_byte:
  "16 \<le> n \<Longrightarrow> n < 256 \<Longrightarrow> hex_digits n = [hexdigit (n div 16), hexdigit (n mod 16)]"
  by (subst hex_digits.simps) (simp add: hex_digits_small less_mult_imp_div_less)

lemma hexdigit_0: "hexdigit 0 = CHR ''0''"
  by (simp add: hexdigit_def)

lemma fmt_02x_byte:
  assumes "0 \<le> b" "b \<le> 255"
  shows "fmt_02x b = [hexdigit (nat b div 16), hexdigit (nat b mod 16)]"
proof (cases "nat b < 16")
  case True
  with assms show ?thesis
    by (simp add: fmt_02x_def hex_digits_small hexdigit_0)
next
  case False
  with assms have "16 \<le> nat b" "nat b < 256" by simp_all
  with assms show ?thesis
    by (simp add: fmt_02x_def hex_digits_byte)
qed

lemma hexdigit_cases:
  "d < 16 \<Longrightarrow> hexdigit d \<in> set ''0123456789abcdef''"
  unfolding hexdigit_def by (rule nth_mem) simp

lemma hexdigit_not_comma: "d < 16 \<Longrightarrow> hexdigit d \<noteq> CHR '',''"
  using hexdigit_cases [of d] by auto

lemma join_Cons: "xs \<noteq> [] \<Longrightarrow> join sep (x # xs) = x @ sep @ join sep xs"
  by (cases xs) simp_all

lemma length_join2:
  "\<forall>x\<in>set xs. length x = 2 \<Longrightarrow> xs \<noteq> [] \<Longrightarrow> length (join '','' xs) + 1 = 3 * length xs"
  by (induction "'',''" xs rule: join.induct) simp_all

lemma commas_join2:
  "\<forall>x\<in>set xs. CHR '','' \<notin> set x \<Longrightarrow> xs \<noteq> [] \<Longrightarrow>
   length (filter (\<lambda>c. c = CHR '','') (join '','' xs)) + 1 = length xs"
  by (induction "'',''" xs rule: join.induct) (auto simp add: filter_empty_conv)

lemma group_join2:
  "\<forall>x\<in>set xs. length x = 2 \<Longrightarrow> k < length xs \<Longrightarrow>
   take 2 (drop (3 * k) (join '','' xs)) = xs ! k"
proof (induction "'',''" xs arbitrary: k rule: join.induct)
  case 1
  then show ?case by simp
next
  case (2 x)
  then show ?case by simp
next
  case (3 x y rest)
  show ?case
  proof (cases k)
    case 0
    with 3 show ?thesis by simp
  next
    case (Suc j)
    have "3 * k = length (x @ '','') + 3 * j" using 3(2) Suc by simp
    then have "drop (3 * k) (join '','' (x # y # rest)) = drop (3 * j) (join '','' (y # rest))"
      by (simp del: join.simps add: join_Cons)
    moreover have "take 2 (drop (3 * j) (join '','' (y # rest))) = (y # rest) ! j"
      using 3 Suc by simp
    ultimately show ?thesis using Suc by simp
  qed
qed

lemma comma_join2:
  "\<forall>x\<in>set xs. length x = 2 \<Longrightarrow> Suc k < length xs \<Longrightarrow>
   join '','' xs ! (3 * k + 2) = CHR '',''"
proof (induction "'',''" xs arbitrary: k rule: join.induct)
  case 1
  then show ?case by simp
next
  case (2 x)
  then show ?case by simp
next
  case (3 x y rest)
  show ?case
  proof (cases k)
    case 0
    with 3(2) show ?thesis by (simp add: nth_append)
  next
    case (Suc j)
    have "3 * k + 2 = length (x @ '','') + (3 * j + 2)" using 3(2) Suc by simp
    then have "join '','' (x # y # rest) ! (3 * k + 2) = join '','' (y # rest) ! (3 * j + 2)"
      by (simp del: join.simps add: join_Cons nth_append)
    moreover have "join '','' (y # rest) ! (3 * j + 2) = CHR '',''"
      using 3 Suc by simp
    ultimately show ?thesis by simp
  qed
qed

text \<open>
  C9: for descriptor bytes that all lie in [0, 255], the command line of \<open>add_descriptor\<close> is
  \<open>nozen.descriptor.add(addr,iface)\<close> followed by the payload in braces, and the payload is
  the bytes rendered as two lowercase hexadecimal digits each and joined by commas: the
  \<open>k\<close>-th group of two digits starts at position \<open>3k\<close>, a comma follows every group but
  the last, and a non-empty list of \<open>n\<close> bytes gives \<open>3n - 1\<close> characters with exactly
  \<open>n - 1\<close> commas. Byte 5 renders as \<open>05\<close>.
\<close>

theorem add_descriptor_payload:
  assumes "\<forall>b\<in>set descriptor_bytes. 0 \<le> b \<and> b \<le> 255"
  shows "add_descriptor_cmd device_addr interface descriptor_bytes =
           ''nozen.descriptor.add('' @ str_int device_addr @ '','' @ str_int interface @ ''){''
             @ hex_str descriptor_bytes @ ''}'' \<and>
         hex_str descriptor_bytes =
           join '','' (map (\<lambda>b. [hexdigit (nat b div 16), hexdigit (nat b mod 16)]) descriptor_bytes) \<and>
         (\<forall>k<length descriptor_bytes.
            take 2 (drop (3 * k) (hex_str descriptor_bytes)) =
              [hexdigit (nat (descriptor_bytes ! k) div 16), hexdigit (nat (descriptor_bytes ! k) mod 16)] \<and>
            hexdigit (nat (descriptor_bytes ! k) div 16) \<in> set ''0123456789abcdef'' \<and>
            hexdigit (nat (descriptor_bytes ! k) mod 16) \<in> set ''0123456789abcdef'') \<and>
         (\<forall>k. Suc k < length descriptor_bytes \<longrightarrow>
            hex_str descriptor_bytes ! (3 * k + 2) = CHR '','') \<and>
         (descriptor_bytes \<noteq> [] \<longrightarrow>
            length (hex_str descriptor_bytes) = 3 * length descriptor_bytes - 1 \<and>
            length (filter (\<lambda>c. c = CHR '','') (hex_str descriptor_bytes)) =
              length descriptor_bytes - 1)"
  (is "?A \<and> ?B \<and> ?C \<and> ?D \<and> ?E")
proof -
  let ?g = "\<lambda>b. [hexdigit (nat b div 16), hexdigit (nat b mod 16)]"
  let ?gs = "map ?g descriptor_bytes"
  have a: ?A by (simp only: add_descriptor_cmd_def)
  have m: "map fmt_02x descriptor_bytes = ?gs"
    using assms by (simp add: fmt_02x_byte)
  have b: ?B by (simp only: hex_str_def m)
  have len2: "\<forall>x\<in>set ?gs. length x = 2" by simp
  have small: "nat v div 16 < 16" if "0 \<le> v \<and> v \<le> 255" for v :: int
  proof -
    have "nat v < 16 * 16" using that by arith
    then show ?thesis by (rule less_mult_imp_div_less)
  qed
  have nocomma: "\<forall>x\<in>set ?gs. CHR '','' \<notin> set x"
  proof
    fix x assume "x \<in> set ?gs"
    then obtain v where v: "v \<in> set descriptor_bytes" and x: "x = ?g v" by auto
    from v assms have "0 \<le> v \<and> v \<le> 255" by simp
    then have "hexdigit (nat v div 16) \<noteq> CHR '',''"
      by (intro hexdigit_not_comma small)
    moreover have "hexdigit (nat v mod 16) \<noteq> CHR '',''"
      by (intro hexdigit_not_comma) simp
    ultimately show "CHR '','' \<notin> set x" unfolding x by auto
  qed
  have c: ?C
  proof (intro allI impI)
    fix k assume k: "k < length descriptor_bytes"
    then have r: "0 \<le> descriptor_bytes ! k \<and> descriptor_bytes ! k \<le> 255"
      using assms by simp
    have "take 2 (drop (3 * k) (join '','' ?gs)) = ?gs ! k"
      using len2 k by (intro group_join2) simp_all
    then have g: "take 2 (drop (3 * k) (hex_str descriptor_bytes)) = ?g (descriptor_bytes ! k)"
      using k by (simp only: b nth_map)
    from g hexdigit_cases [OF small [OF r]] hexdigit_cases [of "nat (descriptor_bytes ! k) mod 16"]
    show "take 2 (drop (3 * k) (hex_str descriptor_bytes)) =
              [hexdigit (nat (descriptor_bytes ! k) div 16), hexdigit (nat (descriptor_bytes ! k) mod 16)] \<and>
            hexdigit (nat (descriptor_bytes ! k) div 16) \<in> set ''0123456789abcdef'' \<and>
            hexdigit (nat (descriptor_bytes ! k) mod 16) \<in> set ''0123456789abcdef''"
      by simp
  qed
  have d: ?D
  proof (intro allI impI)
    fix k assume "Suc k < length descriptor_bytes"
    then have "join '','' ?gs ! (3 * k + 2) = CHR '',''"
      using len2 by (intro comma_join2) simp_all
    then show "hex_str descriptor_bytes ! (3 * k + 2) = CHR '',''" by (simp only: b)
  qed
  have e: ?E
  proof
    assume ne: "descriptor_bytes \<noteq> []"
    then have ne': "?gs \<noteq> []" by simp
    have "length (join '','' ?gs) + 1 = 3 * length ?gs"
      using len2 ne' by (rule length_join2)
    moreover have "length (filter (\<lambda>c. c = CHR '','') (join '','' ?gs)) + 1 = length ?gs"
      using nocomma ne' by (rule commas_join2)
    ultimately show "length (hex_str descriptor_bytes) = 3 * length descriptor_bytes - 1 \<and>
            length (filter (\<lambda>c. c = CHR '','') (hex_str descriptor_bytes)) =
              length descriptor_bytes - 1"
      unfolding b length_map by arith
  qed
  show ?thesis by (intro conjI a b c d e)
qed

theorem add_descriptor_payload_witness:
  "add_descriptor_cmd 1 0 [0x05, 0x01, 0x09, 0x02] = ''nozen.descriptor.add(1,0){05,01,09,02}'' \<and>
   hex_str [0x05, 0x01, 0x09, 0xff] = ''05,01,09,ff'' \<and>
   length (hex_str [0x05, 0x01, 0x09, 0x02]) = 11 \<and>
   length (filter (\<lambda>c. c = CHR '','') (hex_str [0x05, 0x01, 0x09, 0x02])) = 3"
proof -
  have h: "\<forall>b\<in>set [0x05, 0x01, 0x09, 0x02 :: int]. 0 \<le> b \<and> b \<le> 255" by simp
  have ev: "add_descriptor_cmd 1 0 [0x05, 0x01, 0x09, 0x02] = ''nozen.descriptor.add(1,0){05,01,09,02}''"
    "hex_str [0x05, 0x01, 0x09, 0xff] = ''05,01,09,ff''"
    by code_simp+
  have ne: "[0x05, 0x01, 0x09, 0x02 :: int] \<noteq> []" by simp
  have "length (hex_str [0x05, 0x01, 0x09, 0x02]) = 3 * length [0x05, 0x01, 0x09, 0x02 :: int] - 1 \<and>
        length (filter (\<lambda>c. c = CHR '','') (hex_str [0x05, 0x01, 0x09, 0x02])) =
          length [0x05, 0x01, 0x09, 0x02 :: int] - 1"
    by (rule add_descriptor_payload [OF h, of 1 0, THEN conjunct2, THEN conjunct2,
          THEN conjunct2, THEN conjunct2, THEN mp, OF ne])
  then have "length (hex_str [0x05, 0x01, 0x09, 0x02]) = 11"
    "length (filter (\<lambda>c. c = CHR '','') (hex_str [0x05, 0x01, 0x09, 0x02])) = 3"
    by simp_all
  with ev show ?thesis by (intro conjI)
qed

section \<open>The registers the host writes\<close>

lemma written_addrs_append: "written_addrs (xs @ ys) = written_addrs xs \<union> written_addrs ys"
  by (induction xs rule: written_addrs.induct) auto

lemma control_writes_only_iff:
  "control_writes_only s s' \<longleftrightarrow>
     (\<exists>ys. xlog s' = xlog s @ ys \<and> written_addrs ys \<subseteq> {0x00, 0x01})"
proof
  assume a: "control_writes_only s s'"
  then have "xlog s' = xlog s @ drop (length (xlog s)) (xlog s')"
    by (metis append_take_drop_id control_writes_only_def)
  with a show "\<exists>ys. xlog s' = xlog s @ ys \<and> written_addrs ys \<subseteq> {0x00, 0x01}"
    unfolding control_writes_only_def REG_HOST_MODE_ENABLE_def REG_ENUM_START_def by blast
next
  assume "\<exists>ys. xlog s' = xlog s @ ys \<and> written_addrs ys \<subseteq> {0x00, 0x01}"
  then show "control_writes_only s s'"
    by (auto simp add: control_writes_only_def REG_HOST_MODE_ENABLE_def REG_ENUM_START_def)
qed

lemma cwo_refl: "control_writes_only s s"
  by (simp add: control_writes_only_iff)

lemma cwo_trans:
  "control_writes_only s s' \<Longrightarrow> control_writes_only s' s'' \<Longrightarrow> control_writes_only s s''"
  unfolding control_writes_only_iff by (auto simp add: written_addrs_append)

lemma cwo_read: "control_writes_only s (snd (read_register s a))"
  by (simp add: control_writes_only_iff read_register_def)

lemma cwo_write:
  "a = 0x00 \<or> a = 0x01 \<Longrightarrow> control_writes_only s (snd (write_register s a v))"
  by (auto simp add: control_writes_only_iff write_register_def)

lemma cwo_enable: "control_writes_only s (snd (enable_host_mode s))"
  by (simp add: enable_host_mode_def REG_HOST_MODE_ENABLE_def cwo_write)

lemma cwo_disable: "control_writes_only s (snd (disable_host_mode s))"
  by (simp add: disable_host_mode_def REG_HOST_MODE_ENABLE_def cwo_write)

lemma cwo_start: "control_writes_only s (snd (start_enumeration s))"
  by (simp add: control_writes_only_iff start_enumeration_def write_register_def
      REG_ENUM_START_def)

lemma cwo_check: "control_writes_only s (snd (check_enumeration_status s))"
  by (simp add: control_writes_only_iff ces_xlog)

lemma cwo_print_status: "control_writes_only s (print_status s)"
  by (simp add: print_status_def cwo_check)

lemma cwo_mouse: "control_writes_only s (snd (read_mouse_report s))"
  by (simp add: control_writes_only_iff read_mouse_report_def read_register_def split_def
      Let_def split: option.split)

lemma cwo_keyboard_loop: "control_writes_only s (snd (read_keyboard_loop idxs acc s))"
proof (induction idxs arbitrary: acc s)
  case Nil
  then show ?case by (simp add: cwo_refl)
next
  case (Cons i idxs)
  have step: "control_writes_only s (snd (read_register s (REG_KBD_REPORT_BASE + int i)))"
    by (rule cwo_read)
  show ?case
  proof (cases "fst (read_register s (REG_KBD_REPORT_BASE + int i))")
    case None
    with step show ?thesis by (simp add: split_def)
  next
    case (Some v)
    with cwo_trans [OF step Cons.IH] show ?thesis by (simp add: split_def)
  qed
qed

lemma cwo_keyboard: "control_writes_only s (snd (read_keyboard_report s))"
  using cwo_keyboard_loop [of s "[0..<8]" "[]"]
  by (simp add: read_keyboard_report_def split_def split: option.split sum.split)

lemma cwo_monitor_keyboard: "control_writes_only s (snd (monitor_keyboard polls s))"
proof (induction polls arbitrary: s)
  case 0
  then show ?case by (simp add: cwo_refl)
next
  case (Suc polls)
  show ?case
  proof (cases "fst (read_keyboard_report s)")
    case (Inl e)
    with cwo_keyboard [of s] show ?thesis by (simp add: split_def)
  next
    case (Inr r)
    with cwo_trans [OF cwo_keyboard Suc.IH] show ?thesis by (simp add: split_def)
  qed
qed

lemma cwo_monitor_mouse: "control_writes_only s (monitor_mouse polls s)"
proof (induction polls arbitrary: s)
  case 0
  then show ?case by (simp add: cwo_refl)
next
  case (Suc polls)
  from cwo_trans [OF cwo_mouse Suc.IH] show ?case by simp
qed

lemma cwo_enumerate_wait: "control_writes_only s (enumerate_wait k s)"
proof (induction k arbitrary: s)
  case 0
  then show ?case by (simp add: cwo_refl)
next
  case (Suc k)
  from cwo_check [of s] cwo_trans [OF cwo_check Suc.IH, of s]
  show ?case by (simp add: split_def Let_def)
qed

lemma cwo_main: "control_writes_only s0 (snd (main a polls s0))"
proof (cases "enable a \<or> disable a \<or> enumerate a \<or> status a \<or> monitor a")
  case False
  then show ?thesis by (simp add: main_def cwo_refl)
next
  case True
  define s1 where "s1 = (if enable a then snd (enable_host_mode s0) else s0)"
  define s2 where "s2 = (if disable a then snd (disable_host_mode s1) else s1)"
  define s3 where
    "s3 = (if enumerate a then enumerate_wait 50 (snd (start_enumeration s2)) else s2)"
  define s4 where "s4 = (if status a then print_status s3 else s3)"
  define s5 where "s5 = snd (check_enumeration_status s4)"
  define st where "st = fst (check_enumeration_status s4)"
  have c1: "control_writes_only s0 s1"
    by (simp add: s1_def cwo_refl cwo_enable)
  have c2: "control_writes_only s1 s2"
    by (simp add: s2_def cwo_refl cwo_disable)
  have c3: "control_writes_only s2 s3"
    using cwo_trans [OF cwo_start cwo_enumerate_wait, of s2 50]
    by (simp add: s3_def cwo_refl)
  have c4: "control_writes_only s3 s4"
    by (simp add: s4_def cwo_refl cwo_print_status)
  have c04: "control_writes_only s0 s4"
    by (rule cwo_trans [OF cwo_trans [OF cwo_trans [OF c1 c2] c3] c4])
  have c5: "control_writes_only s4 s5"
    by (simp add: s5_def cwo_check)
  have c05: "control_writes_only s0 s5"
    by (rule cwo_trans [OF c04 c5])
  have run: "main a polls s0 =
      (if monitor a then
         (if keyboard_active st then monitor_keyboard polls s5
          else if mouse_active st then (None, monitor_mouse polls s5)
          else (None, s5))
       else (None, s4))"
    using True
    by (simp add: main_def Let_def split_def s1_def s2_def s3_def s4_def s5_def st_def)
  show ?thesis
    unfolding run
    using c04 c05 cwo_trans [OF c05 cwo_monitor_keyboard, of polls]
      cwo_trans [OF c05 cwo_monitor_mouse, of polls]
    by simp
qed

lemma cwo_invoke: "control_writes_only s (invoke c s)"
  by (cases c)
    (simp_all add: cwo_enable cwo_disable cwo_start cwo_check cwo_keyboard cwo_mouse
      cwo_print_status cwo_monitor_keyboard cwo_monitor_mouse cwo_main)

lemma cwo_invoke_all: "control_writes_only s (invoke_all cs s)"
proof (induction cs arbitrary: s)
  case Nil
  then show ?case by (simp add: cwo_refl)
next
  case (Cons c cs)
  from cwo_trans [OF cwo_invoke Cons.IH] show ?case by simp
qed

text \<open>
  C8: whatever sequence of methods of the controller and runs of \<open>main\<close> the script
  performs, from any device state and with any outcome of the transfers, the transfers it
  adds to the log contain no write to a register other than 0x00 (host-mode enable) and 0x01
  (enum-start); every other register appears in read transfers only. Started from an empty
  log, the whole log has this property.
\<close>

theorem host_writes_only_control_registers:
  "(\<exists>ys. xlog (invoke_all cs s) = xlog s @ ys \<and> written_addrs ys \<subseteq> {0x00, 0x01}) \<and>
   (xlog s = [] \<longrightarrow> written_addrs (xlog (invoke_all cs s)) \<subseteq> {0x00, 0x01})"
proof -
  from cwo_invoke_all [of s cs]
  have a: "\<exists>ys. xlog (invoke_all cs s) = xlog s @ ys \<and> written_addrs ys \<subseteq> {0x00, 0x01}"
    by (simp only: control_writes_only_iff)
  then have b: "xlog s = [] \<longrightarrow> written_addrs (xlog (invoke_all cs s)) \<subseteq> {0x00, 0x01}"
    by auto
  from a b show ?thesis by (rule conjI)
qed

theorem host_writes_only_control_registers_witness:
  "xlog dev_idle = [] \<and>
   written_addrs (xlog (invoke_all [Main all_actions 3, ReadMouseReport, DisableHostMode] dev_idle))
     \<subseteq> {0x00, 0x01}"
proof -
  have e: "xlog dev_idle = []" by (simp add: dev_idle_def)
  from host_writes_only_control_registers
    [of "[Main all_actions 3, ReadMouseReport, DisableHostMode]" dev_idle, THEN conjunct2] e
  have "written_addrs (xlog (invoke_all [Main all_actions 3, ReadMouseReport, DisableHostMode] dev_idle))
     \<subseteq> {0x00, 0x01}" by (rule mp)
  with e show ?thesis by (rule conjI)
qed

end
